theory Spec2Isabelle
  imports Complex_Main "HOL-Library.AList"
begin

section \<open>JavaScript values\<close>

text \<open>
  A JavaScript number is a finite value, one of the two infinities, or NaN. Finite doubles
  are rationals; the model computes on them exactly (the rounding of each floating-point
  operation and overflow to an infinity are not modelled) and identifies -0 with 0. The two
  zeros differ only as divisors, and no division of the program modelled here is reached with
  a zero divisor.
\<close>

datatype jsnum = Fin rat | PInf | NInf | NaN

text \<open>The relational operators: every comparison with NaN is false.\<close>

fun jlt :: "jsnum \<Rightarrow> jsnum \<Rightarrow> bool" where
  "jlt NaN _ = False"
| "jlt _ NaN = False"
| "jlt (Fin a) (Fin b) = (a < b)"
| "jlt (Fin _) PInf = True"
| "jlt (Fin _) NInf = False"
| "jlt PInf _ = False"
| "jlt NInf (Fin _) = True"
| "jlt NInf PInf = True"
| "jlt NInf NInf = False"

definition jgt :: "jsnum \<Rightarrow> jsnum \<Rightarrow> bool" where
  "jgt a b = jlt b a"

definition jle :: "jsnum \<Rightarrow> jsnum \<Rightarrow> bool" where
  "jle a b = (a \<noteq> NaN \<and> b \<noteq> NaN \<and> \<not> jlt b a)"

text \<open>Strict equality \<open>===\<close> on numbers: NaN is not equal to itself.\<close>

definition jeq :: "jsnum \<Rightarrow> jsnum \<Rightarrow> bool" where
  "jeq a b = (a \<noteq> NaN \<and> a = b)"

text \<open>A number is truthy unless it is zero or NaN.\<close>

definition truthyNum :: "jsnum \<Rightarrow> bool" where
  "truthyNum a = (a \<noteq> Fin 0 \<and> a \<noteq> NaN)"

fun jneg :: "jsnum \<Rightarrow> jsnum" where
  "jneg (Fin a) = Fin (- a)"
| "jneg PInf = NInf"
| "jneg NInf = PInf"
| "jneg NaN = NaN"

fun jadd :: "jsnum \<Rightarrow> jsnum \<Rightarrow> jsnum" where
  "jadd NaN _ = NaN"
| "jadd _ NaN = NaN"
| "jadd (Fin a) (Fin b) = Fin (a + b)"
| "jadd (Fin _) PInf = PInf"
| "jadd (Fin _) NInf = NInf"
| "jadd PInf NInf = NaN"
| "jadd PInf _ = PInf"
| "jadd NInf PInf = NaN"
| "jadd NInf _ = NInf"

definition jsub :: "jsnum \<Rightarrow> jsnum \<Rightarrow> jsnum" where
  "jsub a b = jadd a (jneg b)"

text \<open>The sign of a number that is not NaN, as \<open>-1\<close>, \<open>0\<close> or \<open>1\<close>.\<close>

fun jsign :: "jsnum \<Rightarrow> int" where
  "jsign (Fin a) = (if a < 0 then - 1 else if a = 0 then 0 else 1)"
| "jsign PInf = 1"
| "jsign NInf = - 1"
| "jsign NaN = 0"

definition infOfSign :: "int \<Rightarrow> jsnum" where
  "infOfSign s = (if s < 0 then NInf else if s = 0 then NaN else PInf)"

fun jmul :: "jsnum \<Rightarrow> jsnum \<Rightarrow> jsnum" where
  "jmul NaN _ = NaN"
| "jmul _ NaN = NaN"
| "jmul (Fin a) (Fin b) = Fin (a * b)"
| "jmul a b = infOfSign (jsign a * jsign b)"

text \<open>
  Division. A finite non-zero number over zero is an infinity and \<open>0 / 0\<close> is NaN, as in
  IEEE 754 with a positive zero divisor.
\<close>

fun jdiv :: "jsnum \<Rightarrow> jsnum \<Rightarrow> jsnum" where
  "jdiv NaN _ = NaN"
| "jdiv _ NaN = NaN"
| "jdiv (Fin a) (Fin b) = (if b = 0 then infOfSign (jsign (Fin a)) else Fin (a / b))"
| "jdiv (Fin _) _ = Fin 0"
| "jdiv a (Fin b) = infOfSign (jsign a * (if b < 0 then - 1 else 1))"
| "jdiv _ _ = NaN"

text \<open>\<open>Math.round\<close> rounds half up, \<open>Math.floor\<close> rounds down; both keep infinities and NaN.\<close>

fun mathRound :: "jsnum \<Rightarrow> jsnum" where
  "mathRound (Fin a) = Fin (of_int \<lfloor>a + 1 / 2\<rfloor>)"
| "mathRound x = x"

fun mathFloor :: "jsnum \<Rightarrow> jsnum" where
  "mathFloor (Fin a) = Fin (of_int \<lfloor>a\<rfloor>)"
| "mathFloor x = x"

text \<open>
  Untyped data, as \<open>JSON.parse\<close> or a caller hands it over. An object is the list of its own
  enumerable properties in enumeration order; a property is read by its first entry.
  Strings are lists of code units below 256.
\<close>

datatype jsval =
    JUndefined
  | JNull
  | JBool bool
  | JNum jsnum
  | JStr string
  | JArr "jsval list"
  | JObj "(string \<times> jsval) list"

text \<open>Reading a property of a list of own properties: \<open>undefined\<close> when it is absent.\<close>

definition field :: "(string \<times> jsval) list \<Rightarrow> string \<Rightarrow> jsval" where
  "field fs k = (case map_of fs k of Some v \<Rightarrow> v | None \<Rightarrow> JUndefined)"

section \<open>Predictions and the scoring engine\<close>

datatype TrendDirection = Up | Down
datatype PredictionPeriod = Day | Week
datatype PredictionStatus = Pending | Resolved

text \<open>
  The interface \<open>Prediction\<close>. A price is a number or \<open>null\<close> (\<open>None\<close>). The sanitizer
  builds a prediction as a spread of the raw object with four properties overwritten; every
  own property that has no field of its own here (the unvalidated \<open>id\<close> among them) is
  carried in \<open>rest\<close>.
\<close>

record Prediction =
  symbol :: string
  prediction :: TrendDirection
  period :: PredictionPeriod
  madeAt :: string
  targetDate :: string
  openPrice :: "jsnum option"
  closePrice :: "jsnum option"
  status :: PredictionStatus
  user :: string
  rest :: "(string \<times> jsval) list"

text \<open>The nullish coalescing \<open>x ?? d\<close> on a price.\<close>

definition orElse :: "jsnum option \<Rightarrow> jsnum \<Rightarrow> jsnum" where
  "orElse x d = (case x of Some n \<Rightarrow> n | None \<Rightarrow> d)"

definition s1Filter :: "Prediction \<Rightarrow> bool" where
  "s1Filter p = (status p = Resolved \<and> openPrice p \<noteq> None \<and> closePrice p \<noteq> None)"

definition s1Step :: "jsnum \<Rightarrow> Prediction \<Rightarrow> jsnum" where
  "s1Step tot p =
     (let actualDirection =
            (if jgt (orElse (closePrice p) (Fin 0)) (orElse (openPrice p) (Fin 0)) then Up else Down)
      in jadd tot (if prediction p = actualDirection then Fin 1 else Fin (- 1)))"

definition calculateSystem1Points :: "Prediction list \<Rightarrow> jsnum" where
  "calculateSystem1Points entries = foldl s1Step (Fin 0) (filter s1Filter entries)"

definition s2Filter :: "Prediction \<Rightarrow> bool" where
  "s2Filter p = (status p = Resolved \<and> openPrice p \<noteq> None \<and> closePrice p \<noteq> None
                 \<and> \<not> (case openPrice p of Some n \<Rightarrow> jeq n (Fin 0) | None \<Rightarrow> False))"

text \<open>The divisor of the percent change, \<open>prediction.openPrice ?? 1\<close>.\<close>

definition s2Divisor :: "Prediction \<Rightarrow> jsnum" where
  "s2Divisor p = orElse (openPrice p) (Fin 1)"

definition changePercent :: "Prediction \<Rightarrow> jsnum" where
  "changePercent p =
     (let change = jdiv (jsub (orElse (closePrice p) (Fin 0)) (orElse (openPrice p) (Fin 0)))
                        (s2Divisor p)
      in jmul change (Fin 100))"

definition s2Step :: "jsnum \<Rightarrow> Prediction \<Rightarrow> jsnum" where
  "s2Step tot p =
     (if prediction p = Up then jadd tot (changePercent p) else jsub tot (changePercent p))"

definition calculateSystem2Points :: "Prediction list \<Rightarrow> jsnum" where
  "calculateSystem2Points entries = foldl s2Step (Fin 0) (filter s2Filter entries)"

section \<open>Strings\<close>

text \<open>
  \<open>String.prototype.trim\<close> removes white space and line terminators from both ends; below
  code unit 256 these are tab, line feed, vertical tab, form feed, carriage return, space and
  the no-break space. \<open>toLowerCase\<close> maps \<open>A\<close> to \<open>Z\<close> and the capital letters of Latin-1
  to their small letters.
\<close>

definition isWhiteSpace :: "char \<Rightarrow> bool" where
  "isWhiteSpace c = (of_char c \<in> {9, 10, 11, 12, 13, 32, 160 :: nat})"

definition trim :: "string \<Rightarrow> string" where
  "trim s = rev (dropWhile isWhiteSpace (rev (dropWhile isWhiteSpace s)))"

definition lowerChar :: "char \<Rightarrow> char" where
  "lowerChar c =
     (let n = (of_char c :: nat)
      in if (65 \<le> n \<and> n \<le> 90) \<or> (192 \<le> n \<and> n \<le> 222 \<and> n \<noteq> 215)
         then char_of (n + 32) else c)"

definition toLowerCase :: "string \<Rightarrow> string" where
  "toLowerCase s = map lowerChar s"

section \<open>Built-in functions taken as parameters\<close>

text \<open>
  Three parsers of the JavaScript library are used by the program and are not part of it:
  \<open>Date.parse\<close> (milliseconds since the epoch, \<open>None\<close> for NaN), the conversion
  \<open>Number(v)\<close> of a string, an array or an object, and \<open>Number.parseFloat\<close>.
\<close>

record env =
  Date_parse :: "string \<Rightarrow> int option"
  Number_other :: "jsval \<Rightarrow> jsnum"
  Number_parseFloat :: "string \<Rightarrow> jsnum"

text \<open>\<open>Number(v)\<close>: the cases the language fixes, and the parameter for the others.\<close>

definition Number_js :: "env \<Rightarrow> jsval \<Rightarrow> jsnum" where
  "Number_js E v =
     (case v of
        JUndefined \<Rightarrow> NaN
      | JNull \<Rightarrow> Fin 0
      | JBool b \<Rightarrow> Fin (if b then 1 else 0)
      | JNum n \<Rightarrow> n
      | _ \<Rightarrow> Number_other E v)"

text \<open>\<open>v ?? d\<close> on untyped values.\<close>

definition nullish :: "jsval \<Rightarrow> jsval \<Rightarrow> jsval" where
  "nullish v d = (if v = JUndefined \<or> v = JNull then d else v)"

section \<open>The entry sanitizer\<close>

record LeagueEntry =
  predictions :: "Prediction list"
  pointsS1 :: jsnum
  pointsS2 :: jsnum
  updatedAt :: string

definition getValidTimestamp :: "env \<Rightarrow> jsval \<Rightarrow> int" where
  "getValidTimestamp E v =
     (case v of
        JStr s \<Rightarrow> (case Date_parse E s of None \<Rightarrow> 0 | Some parsed \<Rightarrow> parsed)
      | _ \<Rightarrow> 0)"

definition isString :: "jsval \<Rightarrow> bool" where
  "isString v = (case v of JStr _ \<Rightarrow> True | _ \<Rightarrow> False)"

text \<open>
  The shape test. An array is an object too, but it has no property under any of the names
  read here, so it fails the first conjunct like every value that is not an object.
\<close>

definition isPrediction :: "jsval \<Rightarrow> bool" where
  "isPrediction entry =
     (case entry of
        JObj candidate \<Rightarrow>
          isString (field candidate ''symbol'') \<and>
          (field candidate ''prediction'' = JStr ''up'' \<or> field candidate ''prediction'' = JStr ''down'') \<and>
          (field candidate ''period'' = JStr ''day'' \<or> field candidate ''period'' = JStr ''week'') \<and>
          isString (field candidate ''madeAt'') \<and>
          isString (field candidate ''targetDate'') \<and>
          (field candidate ''status'' = JStr ''pending'' \<or>
           field candidate ''status'' = JStr ''resolved'' \<or>
           field candidate ''status'' = JUndefined)
      | _ \<Rightarrow> False)"

text \<open>
  Reading the typed fields of an object that passed \<open>isPrediction\<close>; the defaults are never
  taken on such an object.
\<close>

definition stringOf :: "jsval \<Rightarrow> string" where
  "stringOf v = (case v of JStr s \<Rightarrow> s | _ \<Rightarrow> [])"

definition directionOf :: "jsval \<Rightarrow> TrendDirection" where
  "directionOf v = (if v = JStr ''up'' then Up else Down)"

definition periodOf :: "jsval \<Rightarrow> PredictionPeriod" where
  "periodOf v = (if v = JStr ''day'' then Day else Week)"

definition typedKeys :: "string list" where
  "typedKeys = [''symbol'', ''prediction'', ''period'', ''madeAt'', ''targetDate'',
                ''openPrice'', ''closePrice'', ''status'', ''user'']"

text \<open>
  The body of the \<open>map\<close> callback:
  \<open>{...prediction, openPrice, closePrice, status, user: username}\<close>.
\<close>

definition sanitizePrediction :: "string \<Rightarrow> jsval \<Rightarrow> Prediction" where
  "sanitizePrediction username raw =
     (let p = (case raw of JObj fs \<Rightarrow> fs | _ \<Rightarrow> []);
          openPrice' = (case field p ''openPrice'' of JNum n \<Rightarrow> Some n | _ \<Rightarrow> None);
          closePrice' = (case field p ''closePrice'' of JNum n \<Rightarrow> Some n | _ \<Rightarrow> None);
          status' = (if field p ''status'' = JStr ''resolved'' then Resolved else Pending)
      in \<lparr> symbol = stringOf (field p ''symbol''),
           prediction = directionOf (field p ''prediction''),
           period = periodOf (field p ''period''),
           madeAt = stringOf (field p ''madeAt''),
           targetDate = stringOf (field p ''targetDate''),
           openPrice = openPrice',
           closePrice = closePrice',
           status = status',
           user = username,
           rest = filter (\<lambda>kv. fst kv \<notin> set typedKeys) p \<rparr>)"

text \<open>
  \<open>sanitizeUserEntry\<close>. The parameter \<open>entry\<close> is an object, given by its own properties
  (the default \<open>{}\<close> of an omitted argument is the empty list); \<open>nowISO\<close> is
  \<open>new Date().toISOString()\<close>.
\<close>

definition sanitizeUserEntry ::
  "env \<Rightarrow> string \<Rightarrow> string \<Rightarrow> (string \<times> jsval) list \<Rightarrow> LeagueEntry" where
  "sanitizeUserEntry E nowISO username entry =
     (let rawPredictions = (case field entry ''predictions'' of JArr xs \<Rightarrow> xs | _ \<Rightarrow> []);
          sanitizedPredictions = map (sanitizePrediction username) (filter isPrediction rawPredictions);
          hasPredictionData = (length sanitizedPredictions > 0);
          computedS1 =
            (if hasPredictionData then mathRound (calculateSystem1Points sanitizedPredictions)
             else mathRound (Number_js E (nullish (field entry ''pointsS1'') (JNum (Fin 0)))));
          computedS2 =
            (if hasPredictionData then mathRound (calculateSystem2Points sanitizedPredictions)
             else mathRound (Number_js E (nullish (field entry ''pointsS2'') (JNum (Fin 0)))));
          updatedAtCandidate =
            (case field entry ''updatedAt'' of
               JStr s \<Rightarrow> (if s \<noteq> [] then s else nowISO)
             | _ \<Rightarrow> nowISO)
      in \<lparr> predictions = sanitizedPredictions,
           pointsS1 = computedS1,
           pointsS2 = computedS2,
           updatedAt = updatedAtCandidate \<rparr>)"

text \<open>
  A typed value seen as untyped data again: the own properties of a prediction and of a
  league entry, as the sanitizer reads them when it is given its own result.
\<close>

definition priceToJS :: "jsnum option \<Rightarrow> jsval" where
  "priceToJS x = (case x of Some n \<Rightarrow> JNum n | None \<Rightarrow> JNull)"

definition predictionToJS :: "Prediction \<Rightarrow> jsval" where
  "predictionToJS p =
     JObj ([(''symbol'', JStr (symbol p)),
            (''prediction'', JStr (if prediction p = Up then ''up'' else ''down'')),
            (''period'', JStr (if period p = Day then ''day'' else ''week'')),
            (''madeAt'', JStr (madeAt p)),
            (''targetDate'', JStr (targetDate p)),
            (''openPrice'', priceToJS (openPrice p)),
            (''closePrice'', priceToJS (closePrice p)),
            (''status'', JStr (if status p = Resolved then ''resolved'' else ''pending'')),
            (''user'', JStr (user p))] @ rest p)"

definition entryToJS :: "LeagueEntry \<Rightarrow> (string \<times> jsval) list" where
  "entryToJS e =
     [(''predictions'', JArr (map predictionToJS (predictions e))),
      (''pointsS1'', JNum (pointsS1 e)),
      (''pointsS2'', JNum (pointsS2 e)),
      (''updatedAt'', JStr (updatedAt e))]"

section \<open>The merge resolver\<close>

text \<open>
  The part of \<open>shouldReplaceUserEntry\<close> after the comparison of the timestamps: prediction
  counts, then the two point totals, then the existing entry.
\<close>

definition compareCountsAndPoints :: "LeagueEntry \<Rightarrow> LeagueEntry \<Rightarrow> bool" where
  "compareCountsAndPoints existingEntry incomingEntry =
     (let existingCount = length (predictions existingEntry);
          incomingCount = length (predictions incomingEntry)
      in if incomingCount \<noteq> existingCount then incomingCount > existingCount
         else if \<not> jeq (pointsS1 incomingEntry) (pointsS1 existingEntry)
           then jgt (pointsS1 incomingEntry) (pointsS1 existingEntry)
         else if \<not> jeq (pointsS2 incomingEntry) (pointsS2 existingEntry)
           then jgt (pointsS2 incomingEntry) (pointsS2 existingEntry)
         else False)"

definition shouldReplaceUserEntry :: "env \<Rightarrow> LeagueEntry \<Rightarrow> LeagueEntry \<Rightarrow> bool" where
  "shouldReplaceUserEntry E existingEntry incomingEntry =
     (let existingTimestamp = getValidTimestamp E (JStr (updatedAt existingEntry));
          incomingTimestamp = getValidTimestamp E (JStr (updatedAt incomingEntry))
      in if incomingTimestamp \<noteq> 0 \<and> existingTimestamp \<noteq> 0 then
           (if incomingTimestamp > existingTimestamp then True
            else if incomingTimestamp < existingTimestamp then False
            else compareCountsAndPoints existingEntry incomingEntry)
         else if incomingTimestamp \<noteq> 0 \<and> \<not> existingTimestamp \<noteq> 0 then True
         else if \<not> incomingTimestamp \<noteq> 0 \<and> existingTimestamp \<noteq> 0 then False
         else compareCountsAndPoints existingEntry incomingEntry)"

text \<open>
  \<open>mergedUsers\<close> is a plain object, so \<open>mergedUsers[username]\<close> also finds what the object
  inherits. Its prototype is \<open>Object.prototype\<close> until the name \<open>__proto__\<close> is assigned,
  which replaces the prototype by the assigned entry instead of creating a property. The own
  properties are kept in insertion order.
\<close>

record mergedObject =
  own :: "(string \<times> LeagueEntry) list"
  proto :: "LeagueEntry option"

definition objectPrototypeNames :: "string list" where
  "objectPrototypeNames =
     [''constructor'', ''__defineGetter__'', ''__defineSetter__'', ''hasOwnProperty'',
      ''__lookupGetter__'', ''__lookupSetter__'', ''isPrototypeOf'', ''propertyIsEnumerable'',
      ''toString'', ''valueOf'', ''__proto__'', ''toLocaleString'']"

text \<open>
  What \<open>mergedUsers[username]\<close> evaluates to: nothing or a falsy value, a league entry, or
  a truthy inherited value that is not a league entry (a method of \<open>Object.prototype\<close>, that
  object itself, or a property value of an entry installed as prototype). Such a value has no
  property \<open>updatedAt\<close>, \<open>predictions\<close>, \<open>pointsS1\<close> or \<open>pointsS2\<close>.
\<close>

datatype lookupResult = Absent | Entry LeagueEntry | Inherited

definition lookupUser :: "mergedObject \<Rightarrow> string \<Rightarrow> lookupResult" where
  "lookupUser m username =
     (case map_of (own m) username of
        Some e \<Rightarrow> Entry e
      | None \<Rightarrow>
          (case proto m of
             None \<Rightarrow> (if username \<in> set objectPrototypeNames then Inherited else Absent)
           | Some p \<Rightarrow>
               (if username = ''__proto__'' then Entry p
                else if username = ''predictions'' then Inherited
                else if username = ''pointsS1'' then (if truthyNum (pointsS1 p) then Inherited else Absent)
                else if username = ''pointsS2'' then (if truthyNum (pointsS2 p) then Inherited else Absent)
                else if username = ''updatedAt'' then (if updatedAt p \<noteq> [] then Inherited else Absent)
                else if username \<in> set objectPrototypeNames then Inherited
                else Absent)))"

text \<open>The assignment \<open>mergedUsers[username] = sanitizedEntry\<close>.\<close>

definition assignUser :: "mergedObject \<Rightarrow> string \<Rightarrow> LeagueEntry \<Rightarrow> mergedObject" where
  "assignUser m username e =
     (if username = ''__proto__'' \<and> map_of (own m) username = None
      then m\<lparr>proto := Some e\<rparr>
      else m\<lparr>own := AList.update username e (own m)\<rparr>)"

text \<open>
  \<open>shouldReplaceUserEntry\<close> when the existing value is an inherited one: its \<open>updatedAt\<close>
  is \<open>undefined\<close>, its prediction count is \<open>undefined ?? 0\<close>, and its \<open>pointsS1\<close> is
  \<open>undefined\<close>, which no number is strictly equal to and no number is greater than.
\<close>

definition shouldReplaceInherited :: "env \<Rightarrow> LeagueEntry \<Rightarrow> bool" where
  "shouldReplaceInherited E incomingEntry =
     (let existingTimestamp = getValidTimestamp E JUndefined;
          incomingTimestamp = getValidTimestamp E (JStr (updatedAt incomingEntry));
          existingCount = (0 :: nat);
          incomingCount = length (predictions incomingEntry)
      in if incomingTimestamp \<noteq> 0 \<and> existingTimestamp \<noteq> 0 then
           (if incomingTimestamp > existingTimestamp then True
            else if incomingTimestamp < existingTimestamp then False
            else if incomingCount \<noteq> existingCount then incomingCount > existingCount
            else False)
         else if incomingTimestamp \<noteq> 0 \<and> \<not> existingTimestamp \<noteq> 0 then True
         else if \<not> incomingTimestamp \<noteq> 0 \<and> existingTimestamp \<noteq> 0 then False
         else if incomingCount \<noteq> existingCount then incomingCount > existingCount
         else False)"

record MergeSummary =
  added :: "string list"
  updated :: "string list"
  mergedUsers :: mergedObject

text \<open>
  \<open>typeof v === 'object'\<close> for a truthy \<open>v\<close>, and the properties of such a value under
  names other than array indices and \<open>length\<close>.
\<close>

definition isObject :: "jsval \<Rightarrow> bool" where
  "isObject v = (case v of JObj _ \<Rightarrow> True | JArr _ \<Rightarrow> True | _ \<Rightarrow> False)"

definition namedProps :: "jsval \<Rightarrow> (string \<times> jsval) list" where
  "namedProps v = (case v of JObj fs \<Rightarrow> fs | _ \<Rightarrow> [])"

text \<open>
  The callback of \<open>Object.entries(incomingUsers).forEach\<close>. \<open>now username\<close> is the instant
  the clock shows while that name is processed.
\<close>

definition mergeEntry ::
  "env \<Rightarrow> (string \<Rightarrow> string) \<Rightarrow> string list \<Rightarrow> MergeSummary \<Rightarrow> string \<times> jsval \<Rightarrow> MergeSummary" where
  "mergeEntry E now excludedUsers summary kv =
     (let username = fst kv; entry = snd kv
      in if username = [] \<or> username \<in> set excludedUsers \<or> \<not> isObject entry then summary
         else
           (let sanitizedEntry = sanitizeUserEntry E (now username) username (namedProps entry)
            in case lookupUser (mergedUsers summary) username of
                 Absent \<Rightarrow>
                   summary\<lparr> mergedUsers := assignUser (mergedUsers summary) username sanitizedEntry,
                            added := added summary @ [username] \<rparr>
               | Entry existingEntry \<Rightarrow>
                   (if shouldReplaceUserEntry E existingEntry sanitizedEntry
                    then summary\<lparr> mergedUsers := assignUser (mergedUsers summary) username sanitizedEntry,
                                  updated := updated summary @ [username] \<rparr>
                    else summary)
               | Inherited \<Rightarrow>
                   (if shouldReplaceInherited E sanitizedEntry
                    then summary\<lparr> mergedUsers := assignUser (mergedUsers summary) username sanitizedEntry,
                                  updated := updated summary @ [username] \<rparr>
                    else summary)))"

text \<open>
  \<open>mergeLeagueUsers\<close>. \<open>incomingUsers\<close> is \<open>undefined\<close> (\<open>None\<close>) or an object, given as
  \<open>Object.entries\<close> lists it; \<open>exclude\<close> is \<open>options.exclude ?? []\<close>.
\<close>

definition mergeLeagueUsers ::
  "env \<Rightarrow> (string \<Rightarrow> string) \<Rightarrow> (string \<times> LeagueEntry) list \<Rightarrow> (string \<times> jsval) list option
     \<Rightarrow> string list \<Rightarrow> MergeSummary" where
  "mergeLeagueUsers E now existingUsers incomingUsers exclude =
     (let summary = \<lparr> added = [], updated = [],
                      mergedUsers = \<lparr> own = existingUsers, proto = None \<rparr> \<rparr>
      in case incomingUsers of
           None \<Rightarrow> summary
         | Some entries \<Rightarrow> foldl (mergeEntry E now exclude) summary entries)"

section \<open>The symbol search response parser\<close>

record SymbolSearchMatch =
  symbol_m :: string
  name_m :: string
  region :: "string option"
  currency :: "string option"
  matchScore :: "jsnum option"
  type_m :: "string option"

record ParsedSymbolSearchResponse =
  matches :: "SymbolSearchMatch list"
  message :: "string option"
  isRateLimited :: bool
  isCacheable :: bool

definition isRecord :: "jsval \<Rightarrow> bool" where
  "isRecord v = isObject v"

definition toCleanString :: "jsval \<Rightarrow> string option" where
  "toCleanString v =
     (case v of
        JStr s \<Rightarrow> (let trimmed = trim s in if length trimmed > 0 then Some trimmed else None)
      | _ \<Rightarrow> None)"

definition isFinite :: "jsnum \<Rightarrow> bool" where
  "isFinite n = (case n of Fin _ \<Rightarrow> True | _ \<Rightarrow> False)"

definition toNumber :: "env \<Rightarrow> jsval \<Rightarrow> jsnum option" where
  "toNumber E v =
     (case v of
        JNum n \<Rightarrow> (if isFinite n then Some n else None)
      | JStr s \<Rightarrow> (let parsed = Number_parseFloat E s in if isFinite parsed then Some parsed else None)
      | _ \<Rightarrow> None)"

definition parseSymbolSearchMatch :: "env \<Rightarrow> jsval \<Rightarrow> SymbolSearchMatch option" where
  "parseSymbolSearchMatch E v =
     (if \<not> isRecord v then None
      else
        (let fs = namedProps v
         in case toCleanString (field fs ''1. symbol'') of
              None \<Rightarrow> None
            | Some symbolText \<Rightarrow>
                (case toCleanString (field fs ''2. name'') of
                   None \<Rightarrow> None
                 | Some nameText \<Rightarrow>
                     Some \<lparr> symbol_m = symbolText, name_m = nameText,
                            region = toCleanString (field fs ''4. region''),
                            currency = toCleanString (field fs ''8. currency''),
                            matchScore = toNumber E (field fs ''9. matchScore''),
                            type_m = toCleanString (field fs ''3. type'') \<rparr>)))"

definition unexpectedResponse :: ParsedSymbolSearchResponse where
  "unexpectedResponse =
     \<lparr> matches = [], message = Some ''Unexpected response from Alpha Vantage.'',
       isRateLimited = False, isCacheable = False \<rparr>"

definition parseSymbolSearchResponse :: "env \<Rightarrow> jsval \<Rightarrow> ParsedSymbolSearchResponse" where
  "parseSymbolSearchResponse E v =
     (if \<not> isRecord v then unexpectedResponse
      else
        (let fs = namedProps v
         in case toCleanString (field fs ''Note'') of
              Some note \<Rightarrow>
                \<lparr> matches = [], message = Some note, isRateLimited = True, isCacheable = False \<rparr>
            | None \<Rightarrow>
                (case toCleanString (field fs ''Information'') of
                   Some information \<Rightarrow>
                     \<lparr> matches = [], message = Some information, isRateLimited = True,
                       isCacheable = False \<rparr>
                 | None \<Rightarrow>
                     (case toCleanString (field fs ''Error Message'') of
                        Some errorMessage \<Rightarrow>
                          \<lparr> matches = [], message = Some errorMessage, isRateLimited = False,
                            isCacheable = False \<rparr>
                      | None \<Rightarrow>
                          (case field fs ''bestMatches'' of
                             JArr rawBestMatches \<Rightarrow>
                               \<lparr> matches = List.map_filter (parseSymbolSearchMatch E) rawBestMatches,
                                 message = None, isRateLimited = False, isCacheable = True \<rparr>
                           | _ \<Rightarrow> unexpectedResponse)))))"

section \<open>The symbol search cache\<close>

text \<open>
  Match lists are arrays of references to match objects, and the cache hands out and takes in
  references. The store maps an address to the object and to the array that live there;
  addresses from \<open>nextAddr\<close> on are free.
\<close>

type_synonym addr = nat

record heap =
  objs :: "addr \<Rightarrow> SymbolSearchMatch"
  arrs :: "addr \<Rightarrow> addr list"
  nextAddr :: addr

text \<open>The object literal \<open>{ ...match }\<close>: a new object with the properties of \<open>match\<close>.\<close>

definition allocObj :: "heap \<Rightarrow> SymbolSearchMatch \<Rightarrow> addr \<times> heap" where
  "allocObj h m = (nextAddr h, h\<lparr>objs := (objs h)(nextAddr h := m), nextAddr := Suc (nextAddr h)\<rparr>)"

fun cloneObjects :: "heap \<Rightarrow> addr list \<Rightarrow> addr list \<times> heap" where
  "cloneObjects h [] = ([], h)"
| "cloneObjects h (r # rs) =
     (let (r', h1) = allocObj h (objs h r);
          (rs', h2) = cloneObjects h1 rs
      in (r' # rs', h2))"

text \<open>\<open>cloneMatches\<close>: \<open>matches.map((match) => ({ ...match }))\<close>, a new array of new objects.\<close>

definition cloneMatches :: "heap \<Rightarrow> addr \<Rightarrow> addr \<times> heap" where
  "cloneMatches h a =
     (let (refs, h1) = cloneObjects h (arrs h a);
          a' = nextAddr h1
      in (a', h1\<lparr>arrs := (arrs h1)(a' := refs), nextAddr := Suc a'\<rparr>))"

text \<open>The matches an array holds, by value.\<close>

definition matchesAt :: "heap \<Rightarrow> addr \<Rightarrow> SymbolSearchMatch list" where
  "matchesAt h a = map (objs h) (arrs h a)"

definition normalizeSymbolSearchKeyword :: "string \<Rightarrow> string" where
  "normalizeSymbolSearchKeyword keyword = toLowerCase (trim keyword)"

record SymbolSearchCacheOptions =
  ttlMs_opt :: "jsnum option"
  maxEntries_opt :: "jsnum option"

record cacheEntry =
  matches_e :: addr
  expiresAt :: jsnum
  lastAccessed :: nat

text \<open>
  The variables the closures of \<open>createSymbolSearchCache\<close> share. The \<open>Map\<close> is the list of
  its entries in insertion order; \<open>accessSequence\<close> is a counter that only grows.
\<close>

record cacheState =
  ttlMs :: jsnum
  maxEntries :: jsnum
  accessSequence :: nat
  cache :: "(string \<times> cacheEntry) list"

definition DEFAULT_CACHE_TTL_MS :: jsnum where
  "DEFAULT_CACHE_TTL_MS = Fin (5 * 60 * 1000)"

definition DEFAULT_CACHE_MAX_ENTRIES :: jsnum where
  "DEFAULT_CACHE_MAX_ENTRIES = Fin 50"

definition createSymbolSearchCache :: "SymbolSearchCacheOptions \<Rightarrow> cacheState" where
  "createSymbolSearchCache options =
     \<lparr> ttlMs = (case ttlMs_opt options of
                  Some n \<Rightarrow> (if jgt n (Fin 0) then n else DEFAULT_CACHE_TTL_MS)
                | None \<Rightarrow> DEFAULT_CACHE_TTL_MS),
       maxEntries = (case maxEntries_opt options of
                       Some n \<Rightarrow> (if jgt n (Fin 0) then mathFloor n else DEFAULT_CACHE_MAX_ENTRIES)
                     | None \<Rightarrow> DEFAULT_CACHE_MAX_ENTRIES),
       accessSequence = 0,
       cache = [] \<rparr>"

text \<open>
  The search for the least recently used entry: \<open>oldestKey\<close> starts as \<open>null\<close> and
  \<open>oldestAccess\<close> as positive infinity (\<open>None\<close>).
\<close>

definition oldestStep ::
  "string option \<times> nat option \<Rightarrow> string \<times> cacheEntry \<Rightarrow> string option \<times> nat option" where
  "oldestStep acc kv =
     (if (case snd acc of None \<Rightarrow> True | Some oldestAccess \<Rightarrow> lastAccessed (snd kv) < oldestAccess)
      then (Some (fst kv), Some (lastAccessed (snd kv)))
      else acc)"

definition evictOldest :: "(string \<times> cacheEntry) list \<Rightarrow> (string \<times> cacheEntry) list" where
  "evictOldest entries =
     (case fst (foldl oldestStep (None, None) entries) of
        Some oldestKey \<Rightarrow> (if oldestKey \<noteq> [] then AList.delete oldestKey entries else entries)
      | None \<Rightarrow> entries)"

text \<open>\<open>set(keyword, matches)\<close>; \<open>now\<close> is \<open>Date.now()\<close>.\<close>

definition set_cache :: "cacheState \<Rightarrow> heap \<Rightarrow> int \<Rightarrow> string \<Rightarrow> addr \<Rightarrow> cacheState \<times> heap" where
  "set_cache c h now keyword matchesRef =
     (if jeq (maxEntries c) (Fin 0) then (c, h)
      else
        (let normalizedKey = normalizeSymbolSearchKeyword keyword
         in if normalizedKey = [] then (c, h)
            else
              (let accessSequence' = accessSequence c + 1;
                   (copy, h') = cloneMatches h matchesRef;
                   stored = AList.update normalizedKey
                              \<lparr> matches_e = copy,
                                expiresAt = jadd (Fin (of_int now)) (ttlMs c),
                                lastAccessed = accessSequence' \<rparr> (cache c);
                   kept = (if jgt (Fin (of_nat (length stored))) (maxEntries c)
                           then evictOldest stored else stored)
               in (c\<lparr>accessSequence := accessSequence', cache := kept\<rparr>, h'))))"

text \<open>\<open>get(keyword)\<close>: the reference returned (\<open>None\<close> for \<open>null\<close>), the new state, the new store.\<close>

definition get :: "cacheState \<Rightarrow> heap \<Rightarrow> int \<Rightarrow> string \<Rightarrow> addr option \<times> cacheState \<times> heap" where
  "get c h now keyword =
     (let normalizedKey = normalizeSymbolSearchKeyword keyword
      in if normalizedKey = [] then (None, c, h)
         else
           (case map_of (cache c) normalizedKey of
              None \<Rightarrow> (None, c, h)
            | Some entry \<Rightarrow>
                (if jle (expiresAt entry) (Fin (of_int now))
                 then (None, c\<lparr>cache := AList.delete normalizedKey (cache c)\<rparr>, h)
                 else
                   (let accessSequence' = accessSequence c + 1;
                        (copy, h') = cloneMatches h (matches_e entry)
                    in (Some copy,
                        c\<lparr>accessSequence := accessSequence',
                          cache := AList.update normalizedKey
                                     (entry\<lparr>lastAccessed := accessSequence'\<rparr>) (cache c)\<rparr>,
                        h')))))"

definition size_cache :: "cacheState \<Rightarrow> nat" where
  "size_cache c = length (cache c)"

text \<open>
  The state a cache can be in: the keys of the \<open>Map\<close> are distinct and not empty, no recency
  marker is ahead of the counter, and every stored array and every object in it is allocated.
\<close>

definition cacheInv :: "cacheState \<Rightarrow> heap \<Rightarrow> bool" where
  "cacheInv c h =
     (distinct (map fst (cache c)) \<and>
      list_all (\<lambda>kv. fst kv \<noteq> [] \<and>
                     lastAccessed (snd kv) \<le> accessSequence c \<and>
                     matches_e (snd kv) < nextAddr h \<and>
                     list_all (\<lambda>r. r < nextAddr h) (arrs h (matches_e (snd kv)))) (cache c))"

text \<open>What the cache holds, by value: each key with its matches and its expiry.\<close>

definition contents :: "cacheState \<Rightarrow> heap \<Rightarrow> (string \<times> SymbolSearchMatch list \<times> jsnum) list" where
  "contents c h = map (\<lambda>kv. (fst kv, matchesAt h (matches_e (snd kv)), expiresAt (snd kv))) (cache c)"

text \<open>Two stores that agree below an address.\<close>

definition agreeBelow :: "addr \<Rightarrow> heap \<Rightarrow> heap \<Rightarrow> bool" where
  "agreeBelow n h1 h2 = list_all (\<lambda>x. objs h1 x = objs h2 x \<and> arrs h1 x = arrs h2 x) [0..<n]"

section \<open>Sequences of calls on a cache\<close>

text \<open>A sequence of calls on a cache: each \<open>set\<close> and \<open>get\<close> with the clock reading at the call.\<close>

datatype cacheCall = CallSet int string addr | CallGet int string

fun runCalls :: "cacheState \<Rightarrow> heap \<Rightarrow> cacheCall list \<Rightarrow> cacheState \<times> heap" where
  "runCalls c h [] = (c, h)"
| "runCalls c h (CallSet now keyword matchesRef # calls) =
     (case set_cache c h now keyword matchesRef of (c', h') \<Rightarrow> runCalls c' h' calls)"
| "runCalls c h (CallGet now keyword # calls) =
     (case get c h now keyword of (_, c', h') \<Rightarrow> runCalls c' h' calls)"

section \<open>The merge in the words of the specification\<close>

text \<open>
  The merge in the words of the specification: which incoming pairs are skipped, the record
  an incoming pair is sanitized to, and which pairs are to be recorded as added and as
  updated, given the existing collection.
\<close>

definition skipped :: "string list \<Rightarrow> string \<times> jsval \<Rightarrow> bool" where
  "skipped exclude kv = (fst kv = [] \<or> fst kv \<in> set exclude \<or> \<not> isObject (snd kv))"

definition incomingRecord :: "env \<Rightarrow> (string \<Rightarrow> string) \<Rightarrow> string \<times> jsval \<Rightarrow> LeagueEntry" where
  "incomingRecord E now kv = sanitizeUserEntry E (now (fst kv)) (fst kv) (namedProps (snd kv))"

definition specAdded :: "(string \<times> LeagueEntry) list \<Rightarrow> string list \<Rightarrow> string \<times> jsval \<Rightarrow> bool" where
  "specAdded existing exclude kv = (\<not> skipped exclude kv \<and> map_of existing (fst kv) = None)"

definition specUpdated ::
  "env \<Rightarrow> (string \<Rightarrow> string) \<Rightarrow> (string \<times> LeagueEntry) list \<Rightarrow> string list \<Rightarrow> string \<times> jsval \<Rightarrow> bool" where
  "specUpdated E now existing exclude kv =
     (\<not> skipped exclude kv \<and>
      (case map_of existing (fst kv) of
         None \<Rightarrow> False
       | Some existingEntry \<Rightarrow> shouldReplaceUserEntry E existingEntry (incomingRecord E now kv)))"

definition specMerged ::
  "env \<Rightarrow> (string \<Rightarrow> string) \<Rightarrow> (string \<times> LeagueEntry) list \<Rightarrow> string list
     \<Rightarrow> (string \<times> jsval) list \<Rightarrow> string \<Rightarrow> LeagueEntry option" where
  "specMerged E now existing exclude entries username =
     (case map_of entries username of
        None \<Rightarrow> map_of existing username
      | Some v \<Rightarrow>
          (if specAdded existing exclude (username, v) \<or> specUpdated E now existing exclude (username, v)
           then Some (incomingRecord E now (username, v))
           else map_of existing username))"

section \<open>Example data\<close>

definition demoPrediction :: "TrendDirection \<Rightarrow> rat \<Rightarrow> rat \<Rightarrow> Prediction" where
  "demoPrediction d a b =
     \<lparr> symbol = ''AAPL'', prediction = d, period = Day, madeAt = ''2024-01-01T00:00:00.000Z'',
       targetDate = ''2024-01-02'', openPrice = Some (Fin a), closePrice = Some (Fin b),
       status = Resolved, user = ''Test'', rest = [(''id'', JNum (Fin 1))] \<rparr>"

text \<open>
  Sample values of the built-in functions: \<open>Date.parse\<close> on five ISO strings (every other
  string taken as unparseable), and \<open>Number.parseFloat\<close> on one string.
\<close>

definition demoParse :: "string \<Rightarrow> int option" where
  "demoParse s =
     (if s = ''1970-01-01T00:00:00.000Z'' then Some 0
      else if s = ''1969-12-31T00:00:00.000Z'' then Some (- 86400000)
      else if s = ''2024-03-01T00:00:00.000Z'' then Some 1709251200000
      else if s = ''2024-03-02T00:00:00.000Z'' then Some 1709337600000
      else if s = ''2024-03-03T00:00:00.000Z'' then Some 1709424000000
      else None)"

definition demoEnv :: env where
  "demoEnv = \<lparr> Date_parse = demoParse, Number_other = (\<lambda>_. NaN),
               Number_parseFloat = (\<lambda>s. if s = ''0.8889'' then Fin (8889 / 10000) else NaN) \<rparr>"

definition demoEntry :: "nat \<Rightarrow> rat \<Rightarrow> rat \<Rightarrow> string \<Rightarrow> LeagueEntry" where
  "demoEntry n s1 s2 t =
     \<lparr> predictions = replicate n (demoPrediction Up 100 110), pointsS1 = Fin s1, pointsS2 = Fin s2,
       updatedAt = t \<rparr>"

definition rawPrediction :: "jsval \<Rightarrow> jsval \<Rightarrow> jsval \<Rightarrow> jsval" where
  "rawPrediction openP closeP st =
     JObj [(''id'', JNum (Fin 6)), (''symbol'', JStr ''AAPL''), (''prediction'', JStr ''up''),
           (''period'', JStr ''day''), (''madeAt'', JStr ''2024-01-01T00:00:00.000Z''),
           (''targetDate'', JStr ''2024-01-02''), (''openPrice'', openP), (''closePrice'', closeP),
           (''status'', st), (''user'', JStr ''Test'')]"

definition droppedMatches :: "jsval list" where
  "droppedMatches = [JObj [(''1. symbol'', JStr []), (''2. name'', JStr ''Invalid'')],
                     JObj [(''not a match'', JBool True)]]"

definition demoMatch :: SymbolSearchMatch where
  "demoMatch = \<lparr> symbol_m = ''AAPL'', name_m = ''Apple Inc.'', region = None, currency = None,
                 matchScore = None, type_m = None \<rparr>"

text \<open>A store with one match object at address 2 and the array \<open>[2]\<close> at address 3.\<close>

definition demoHeap :: heap where
  "demoHeap = \<lparr> objs = (\<lambda>_. demoMatch), arrs = (\<lambda>a. if a = 3 then [2] else []), nextAddr = 4 \<rparr>"

definition defaultOptions :: SymbolSearchCacheOptions where
  "defaultOptions = \<lparr> ttlMs_opt = None, maxEntries_opt = None \<rparr>"

text \<open>
  The default cache after \<open>set('AAPL', m)\<close> at time 1000, with \<open>m\<close> the array at address 3
  of \<open>demoHeap\<close>: the copy of the object is at address 4 and the copy of the array at 5.
\<close>

definition demoCache :: cacheState where
  "demoCache = \<lparr> ttlMs = Fin 300000, maxEntries = Fin 50, accessSequence = 1,
                 cache = [(''aapl'', \<lparr> matches_e = 5, expiresAt = Fin 301000, lastAccessed = 1 \<rparr>)] \<rparr>"

definition demoHeap1 :: heap where
  "demoHeap1 = demoHeap\<lparr> objs := (objs demoHeap)(4 := demoMatch),
                         arrs := (arrs demoHeap)(5 := [4]), nextAddr := 6 \<rparr>"

text \<open>A clock that shows the same instant for every username.\<close>

definition demoNow :: "string \<Rightarrow> string" where
  "demoNow username = ''2024-03-03T00:00:00.000Z''"

text \<open>The data of the tests of the repository.\<close>

definition basePrediction :: "(string \<times> jsval) list" where
  "basePrediction =
     [(''id'', JNum (Fin 1)), (''symbol'', JStr ''AAPL''), (''prediction'', JStr ''up''),
      (''period'', JStr ''day''), (''madeAt'', JStr ''2024-01-01T00:00:00.000Z''),
      (''targetDate'', JStr ''2024-01-02''), (''openPrice'', JNum (Fin 100)),
      (''closePrice'', JNum (Fin 110)), (''status'', JStr ''resolved''), (''user'', JStr ''Test'')]"

text \<open>The object literal \<open>{ ...base, k: v }\<close> for each pair of the second list in turn.\<close>

definition withProps :: "(string \<times> jsval) list \<Rightarrow> (string \<times> jsval) list \<Rightarrow> jsval" where
  "withProps base kvs = JObj (foldl (\<lambda>fs kv. AList.update (fst kv) (snd kv) fs) base kvs)"

definition testEntry :: "jsval list \<Rightarrow> rat \<Rightarrow> rat \<Rightarrow> string \<Rightarrow> (string \<times> jsval) list" where
  "testEntry ps s1 s2 t =
     [(''predictions'', JArr ps), (''pointsS1'', JNum (Fin s1)), (''pointsS2'', JNum (Fin s2)),
      (''updatedAt'', JStr t)]"

definition msft :: SymbolSearchMatch where
  "msft = \<lparr> symbol_m = ''MSFT'', name_m = ''Microsoft Corp.'', region = None, currency = None,
                 matchScore = None, type_m = None \<rparr>"

definition goog :: SymbolSearchMatch where
  "goog = \<lparr> symbol_m = ''GOOG'', name_m = ''Alphabet Inc.'', region = None, currency = None,
                 matchScore = None, type_m = None \<rparr>"

text \<open>A store with three match lists, at addresses 3, 5 and 7.\<close>

definition testHeap :: heap where
  "testHeap = \<lparr> objs = (\<lambda>a. if a = 2 then demoMatch else if a = 4 then msft else goog),
                arrs = (\<lambda>a. if a = 3 then [2] else if a = 5 then [4] else if a = 7 then [6] else []),
                nextAddr = 8 \<rparr>"


definition testExisting :: "(string \<times> LeagueEntry) list" where
  "testExisting =
     [(''Alpha'', sanitizeUserEntry demoEnv ''now'' ''Alpha''
                    (testEntry [JObj basePrediction] 1 10 ''2024-03-01T00:00:00.000Z''))]"

definition testIncoming :: "(string \<times> jsval) list" where
  "testIncoming =
     [(''Alpha'', JObj (testEntry [JObj basePrediction, withProps basePrediction [(''id'', JNum (Fin 5))]]
                          3 40 ''2024-03-03T00:00:00.000Z'')),
      (''Beta'', JObj (testEntry [JObj basePrediction] 1 12 ''2024-03-02T00:00:00.000Z''))]"

section \<open>Properties of the scoring engine\<close>

lemma jeq_zero [simp]: "jeq n (Fin 0) = (n = Fin 0)"
  by (auto simp: jeq_def)

lemma s2Filter_iff:
  "s2Filter p = (status p = Resolved \<and>
                 (\<exists>a b. openPrice p = Some a \<and> closePrice p = Some b \<and> a \<noteq> Fin 0))"
  by (cases "openPrice p"; cases "closePrice p") (auto simp: s2Filter_def)

lemma calculateSystem2Points_snoc:
  "calculateSystem2Points (xs @ [p]) =
     (if s2Filter p then s2Step (calculateSystem2Points xs) p else calculateSystem2Points xs)"
  by (simp add: calculateSystem2Points_def)

lemma calculateSystem2Points_drop:
  "\<not> s2Filter p \<Longrightarrow> calculateSystem2Points (xs @ p # ys) = calculateSystem2Points (xs @ ys)"
  by (simp add: calculateSystem2Points_def)

text \<open>
  Claim C9. \<open>calculateSystem2Points\<close> takes into account only the predictions that are
  resolved, have two numeric prices and an open price other than zero: every prediction that
  reaches the reducer has a divisor other than zero; a prediction that fails the condition,
  and in particular a resolved one with open price exactly 0 whatever its direction, can be
  removed from the list without changing the result; and a prediction that meets it adds
  \<open>(close - open) / open * 100\<close> to the total of the predictions before it when it
  predicted up and subtracts it when it predicted down.
\<close>

theorem scoreSystemTwo_filter_and_contribution:
  "(\<forall>q \<in> set (filter s2Filter entries). s2Divisor q \<noteq> Fin 0) \<and>
   (\<not> (status p = Resolved \<and>
        (\<exists>a b. openPrice p = Some a \<and> closePrice p = Some b \<and> a \<noteq> Fin 0))
      \<longrightarrow> calculateSystem2Points (xs @ p # ys) = calculateSystem2Points (xs @ ys)) \<and>
   (status p = Resolved \<and> openPrice p = Some (Fin 0)
      \<longrightarrow> calculateSystem2Points (xs @ p # ys) = calculateSystem2Points (xs @ ys)) \<and>
   (status p = Resolved \<and> openPrice p = Some a \<and> closePrice p = Some b \<and> a \<noteq> Fin 0
      \<longrightarrow> calculateSystem2Points (xs @ [p]) =
            (if prediction p = Up
             then jadd (calculateSystem2Points xs) (jmul (jdiv (jsub b a) a) (Fin 100))
             else jsub (calculateSystem2Points xs) (jmul (jdiv (jsub b a) a) (Fin 100))))"
proof (intro conjI impI ballI)
  fix q assume "q \<in> set (filter s2Filter entries)"
  then have "s2Filter q" by simp
  then show "s2Divisor q \<noteq> Fin 0"
    by (auto simp: s2Filter_iff s2Divisor_def orElse_def)
next
  assume "\<not> (status p = Resolved \<and>
             (\<exists>a b. openPrice p = Some a \<and> closePrice p = Some b \<and> a \<noteq> Fin 0))"
  then have "\<not> s2Filter p" by (simp add: s2Filter_iff)
  then show "calculateSystem2Points (xs @ p # ys) = calculateSystem2Points (xs @ ys)"
    by (rule calculateSystem2Points_drop)
next
  assume "status p = Resolved \<and> openPrice p = Some (Fin 0)"
  then have "\<not> s2Filter p" by (auto simp: s2Filter_iff)
  then show "calculateSystem2Points (xs @ p # ys) = calculateSystem2Points (xs @ ys)"
    by (rule calculateSystem2Points_drop)
next
  assume h: "status p = Resolved \<and> openPrice p = Some a \<and> closePrice p = Some b \<and> a \<noteq> Fin 0"
  then have "s2Filter p" by (auto simp: s2Filter_iff)
  moreover have "changePercent p = jmul (jdiv (jsub b a) a) (Fin 100)"
    using h by (simp add: changePercent_def s2Divisor_def orElse_def)
  ultimately show "calculateSystem2Points (xs @ [p]) =
            (if prediction p = Up
             then jadd (calculateSystem2Points xs) (jmul (jdiv (jsub b a) a) (Fin 100))
             else jsub (calculateSystem2Points xs) (jmul (jdiv (jsub b a) a) (Fin 100)))"
    by (simp add: calculateSystem2Points_snoc s2Step_def)
qed

text \<open>
  At open 100 and close 120 a prediction of up scores 20 and one of down scores -20, and a
  resolved prediction with open price 0 in front of them changes neither.
\<close>

theorem scoreSystemTwo_filter_and_contribution_witness:
  "calculateSystem2Points ([] @ [demoPrediction Up 100 120]) = Fin 20 \<and>
   calculateSystem2Points ([] @ [demoPrediction Down 100 120]) = Fin (- 20) \<and>
   calculateSystem2Points ([] @ demoPrediction Down 0 120 # [demoPrediction Up 100 120]) = Fin 20 \<and>
   list_all (\<lambda>q. s2Divisor q \<noteq> Fin 0)
     (filter s2Filter [demoPrediction Down 0 120, demoPrediction Up 100 120])"
proof -
  have empty: "calculateSystem2Points [] = Fin 0"
    by (simp add: calculateSystem2Points_def)
  have up: "calculateSystem2Points ([] @ [demoPrediction Up 100 120]) = Fin 20"
    using scoreSystemTwo_filter_and_contribution
            [where p = "demoPrediction Up 100 120" and xs = "[]" and a = "Fin 100" and b = "Fin 120"]
    by (simp add: demoPrediction_def empty jsub_def)
  have down: "calculateSystem2Points ([] @ [demoPrediction Down 100 120]) = Fin (- 20)"
    using scoreSystemTwo_filter_and_contribution
            [where p = "demoPrediction Down 100 120" and xs = "[]" and a = "Fin 100" and b = "Fin 120"]
    by (simp add: demoPrediction_def empty jsub_def)
  have zero: "calculateSystem2Points ([] @ demoPrediction Down 0 120 # [demoPrediction Up 100 120])
                = calculateSystem2Points ([] @ [demoPrediction Up 100 120])"
    using scoreSystemTwo_filter_and_contribution
            [where p = "demoPrediction Down 0 120" and xs = "[]" and ys = "[demoPrediction Up 100 120]"]
    by (simp add: demoPrediction_def)
  have divisor: "list_all (\<lambda>q. s2Divisor q \<noteq> Fin 0)
                   (filter s2Filter [demoPrediction Down 0 120, demoPrediction Up 100 120])"
    using scoreSystemTwo_filter_and_contribution
            [where entries = "[demoPrediction Down 0 120, demoPrediction Up 100 120]"]
    unfolding list_all_iff by blast
  show ?thesis using up down zero divisor by simp
qed

section \<open>Properties of the merge resolver: which entry wins\<close>

lemma jlt_irrefl [simp]: "\<not> jlt a a"
  by (cases a) auto

lemma jlt_asym: "jlt a b \<Longrightarrow> \<not> jlt b a"
  by (cases a; cases b) auto

lemma jlt_not_jeq: "jlt a b \<Longrightarrow> \<not> jeq a b \<and> \<not> jeq b a"
  by (auto simp: jeq_def)

text \<open>
  Claim C4. The cascade of \<open>shouldReplaceUserEntry\<close>, in order. A timestamp is valid when
  \<open>getValidTimestamp\<close> gives a value other than 0. With two valid timestamps the strictly
  later entry wins whatever the counts and the scores; with one valid timestamp the entry that
  has it wins; with equal timestamps (both invalid included) the strictly longer prediction
  list wins, then the strictly greater \<open>pointsS1\<close>, then the strictly greater \<open>pointsS2\<close>,
  and when all are equal the existing entry stays (the result is false).
\<close>

theorem shouldReplace_cascade:
  "(let tE = getValidTimestamp E (JStr (updatedAt existing));
        tI = getValidTimestamp E (JStr (updatedAt incoming));
        nE = length (predictions existing);
        nI = length (predictions incoming);
        result = shouldReplaceUserEntry E existing incoming
    in (tI \<noteq> 0 \<and> tE \<noteq> 0 \<and> tI > tE \<longrightarrow> result) \<and>
       (tI \<noteq> 0 \<and> tE \<noteq> 0 \<and> tI < tE \<longrightarrow> \<not> result) \<and>
       (tI \<noteq> 0 \<and> tE = 0 \<longrightarrow> result) \<and>
       (tI = 0 \<and> tE \<noteq> 0 \<longrightarrow> \<not> result) \<and>
       (tI = tE \<longrightarrow>
          (nI > nE \<longrightarrow> result) \<and>
          (nI < nE \<longrightarrow> \<not> result) \<and>
          (nI = nE \<longrightarrow>
             (jgt (pointsS1 incoming) (pointsS1 existing) \<longrightarrow> result) \<and>
             (jlt (pointsS1 incoming) (pointsS1 existing) \<longrightarrow> \<not> result) \<and>
             (jeq (pointsS1 incoming) (pointsS1 existing) \<longrightarrow>
                (jgt (pointsS2 incoming) (pointsS2 existing) \<longrightarrow> result) \<and>
                (jlt (pointsS2 incoming) (pointsS2 existing) \<longrightarrow> \<not> result) \<and>
                (jeq (pointsS2 incoming) (pointsS2 existing) \<longrightarrow> \<not> result)))))"
  unfolding Let_def shouldReplaceUserEntry_def compareCountsAndPoints_def jgt_def
  by (auto dest: jlt_asym jlt_not_jeq)



lemmas demo_simps = Let_def demoEntry_def demoEnv_def demoParse_def getValidTimestamp_def jgt_def jeq_def

text \<open>One pair of entries for each step of the cascade, in both directions.\<close>

theorem shouldReplace_cascade_witness:
  "shouldReplaceUserEntry demoEnv (demoEntry 5 9 90 ''2024-03-01T00:00:00.000Z'')
                                  (demoEntry 1 1 1 ''2024-03-02T00:00:00.000Z'') \<and>
   \<not> shouldReplaceUserEntry demoEnv (demoEntry 1 1 1 ''2024-03-02T00:00:00.000Z'')
                                    (demoEntry 5 9 90 ''2024-03-01T00:00:00.000Z'') \<and>
   shouldReplaceUserEntry demoEnv (demoEntry 5 9 90 ''yesterday'')
                                  (demoEntry 1 1 1 ''2024-03-01T00:00:00.000Z'') \<and>
   \<not> shouldReplaceUserEntry demoEnv (demoEntry 1 1 1 ''2024-03-01T00:00:00.000Z'')
                                    (demoEntry 5 9 90 ''yesterday'') \<and>
   shouldReplaceUserEntry demoEnv (demoEntry 1 9 90 ''2024-03-01T00:00:00.000Z'')
                                  (demoEntry 2 1 1 ''2024-03-01T00:00:00.000Z'') \<and>
   \<not> shouldReplaceUserEntry demoEnv (demoEntry 2 1 1 ''yesterday'') (demoEntry 1 9 90 ''never'') \<and>
   shouldReplaceUserEntry demoEnv (demoEntry 1 1 90 ''yesterday'') (demoEntry 1 2 1 ''never'') \<and>
   \<not> shouldReplaceUserEntry demoEnv (demoEntry 1 2 1 ''yesterday'') (demoEntry 1 1 90 ''never'') \<and>
   shouldReplaceUserEntry demoEnv (demoEntry 1 1 10 ''yesterday'') (demoEntry 1 1 11 ''never'') \<and>
   \<not> shouldReplaceUserEntry demoEnv (demoEntry 1 1 11 ''yesterday'') (demoEntry 1 1 10 ''never'') \<and>
   \<not> shouldReplaceUserEntry demoEnv (demoEntry 1 1 10 ''yesterday'') (demoEntry 1 1 10 ''never'')"
proof -
  have a: "shouldReplaceUserEntry demoEnv (demoEntry 5 9 90 ''2024-03-01T00:00:00.000Z'')
                                  (demoEntry 1 1 1 ''2024-03-02T00:00:00.000Z'')"
    using shouldReplace_cascade [of demoEnv "demoEntry 5 9 90 ''2024-03-01T00:00:00.000Z''"
                                   "demoEntry 1 1 1 ''2024-03-02T00:00:00.000Z''"]
    by (simp add: demo_simps)
  have b: "\<not> shouldReplaceUserEntry demoEnv (demoEntry 1 1 1 ''2024-03-02T00:00:00.000Z'')
                                    (demoEntry 5 9 90 ''2024-03-01T00:00:00.000Z'')"
    using shouldReplace_cascade [of demoEnv "demoEntry 1 1 1 ''2024-03-02T00:00:00.000Z''"
                                   "demoEntry 5 9 90 ''2024-03-01T00:00:00.000Z''"]
    by (simp add: demo_simps)
  have c: "shouldReplaceUserEntry demoEnv (demoEntry 5 9 90 ''yesterday'')
                                  (demoEntry 1 1 1 ''2024-03-01T00:00:00.000Z'')"
    using shouldReplace_cascade [of demoEnv "demoEntry 5 9 90 ''yesterday''"
                                   "demoEntry 1 1 1 ''2024-03-01T00:00:00.000Z''"]
    by (simp add: demo_simps)
  have d: "\<not> shouldReplaceUserEntry demoEnv (demoEntry 1 1 1 ''2024-03-01T00:00:00.000Z'')
                                    (demoEntry 5 9 90 ''yesterday'')"
    using shouldReplace_cascade [of demoEnv "demoEntry 1 1 1 ''2024-03-01T00:00:00.000Z''"
                                   "demoEntry 5 9 90 ''yesterday''"]
    by (simp add: demo_simps)
  have e: "shouldReplaceUserEntry demoEnv (demoEntry 1 9 90 ''2024-03-01T00:00:00.000Z'')
                                  (demoEntry 2 1 1 ''2024-03-01T00:00:00.000Z'')"
    using shouldReplace_cascade [of demoEnv "demoEntry 1 9 90 ''2024-03-01T00:00:00.000Z''"
                                   "demoEntry 2 1 1 ''2024-03-01T00:00:00.000Z''"]
    by (simp add: demo_simps)
  have f: "\<not> shouldReplaceUserEntry demoEnv (demoEntry 2 1 1 ''yesterday'') (demoEntry 1 9 90 ''never'')"
    using shouldReplace_cascade [of demoEnv "demoEntry 2 1 1 ''yesterday''" "demoEntry 1 9 90 ''never''"]
    by (simp add: demo_simps)
  have g: "shouldReplaceUserEntry demoEnv (demoEntry 1 1 90 ''yesterday'') (demoEntry 1 2 1 ''never'')"
    using shouldReplace_cascade [of demoEnv "demoEntry 1 1 90 ''yesterday''" "demoEntry 1 2 1 ''never''"]
    by (simp add: demo_simps)
  have h: "\<not> shouldReplaceUserEntry demoEnv (demoEntry 1 2 1 ''yesterday'') (demoEntry 1 1 90 ''never'')"
    using shouldReplace_cascade [of demoEnv "demoEntry 1 2 1 ''yesterday''" "demoEntry 1 1 90 ''never''"]
    by (simp add: demo_simps)
  have i: "shouldReplaceUserEntry demoEnv (demoEntry 1 1 10 ''yesterday'') (demoEntry 1 1 11 ''never'')"
    using shouldReplace_cascade [of demoEnv "demoEntry 1 1 10 ''yesterday''" "demoEntry 1 1 11 ''never''"]
    by (simp add: demo_simps)
  have j: "\<not> shouldReplaceUserEntry demoEnv (demoEntry 1 1 11 ''yesterday'') (demoEntry 1 1 10 ''never'')"
    using shouldReplace_cascade [of demoEnv "demoEntry 1 1 11 ''yesterday''" "demoEntry 1 1 10 ''never''"]
    by (simp add: demo_simps)
  have k: "\<not> shouldReplaceUserEntry demoEnv (demoEntry 1 1 10 ''yesterday'') (demoEntry 1 1 10 ''never'')"
    using shouldReplace_cascade [of demoEnv "demoEntry 1 1 10 ''yesterday''" "demoEntry 1 1 10 ''never''"]
    by (simp add: demo_simps)
  show ?thesis using a b c d e f g h i j k by simp
qed

text \<open>
  Claim C10. When the \<open>updatedAt\<close> of an entry parses to the epoch itself (\<open>Date.parse\<close>
  gives 0), \<open>getValidTimestamp\<close> gives 0 for it, as it does for a missing \<open>updatedAt\<close>.
  Against an entry with any valid timestamp other than 0, earlier than the epoch or later,
  the entry at the epoch loses as incoming and as existing entry: the one-sided branches
  decide and the two instants are never compared. Replacing its \<open>updatedAt\<close> by a string
  that does not parse changes no decision.
\<close>

theorem epoch_timestamp_counts_as_missing:
  "Date_parse E (updatedAt e) = Some 0 \<Longrightarrow>
     getValidTimestamp E (JStr (updatedAt e)) = 0 \<and>
     getValidTimestamp E JUndefined = 0 \<and>
     (getValidTimestamp E (JStr (updatedAt other)) \<noteq> 0 \<longrightarrow>
        shouldReplaceUserEntry E e other \<and> \<not> shouldReplaceUserEntry E other e) \<and>
     (Date_parse E invalid = None \<longrightarrow>
        shouldReplaceUserEntry E e other = shouldReplaceUserEntry E (e\<lparr>updatedAt := invalid\<rparr>) other \<and>
        shouldReplaceUserEntry E other e = shouldReplaceUserEntry E other (e\<lparr>updatedAt := invalid\<rparr>))"
  by (simp add: shouldReplaceUserEntry_def getValidTimestamp_def compareCountsAndPoints_def Let_def)

text \<open>
  The entry stamped \<open>1970-01-01T00:00:00.000Z\<close> is replaced by one stamped a day earlier,
  and does not replace one stamped in 2024 although it has more predictions and points.
\<close>

theorem epoch_timestamp_counts_as_missing_witness:
  "Date_parse demoEnv (updatedAt (demoEntry 1 1 10 ''1970-01-01T00:00:00.000Z'')) = Some 0 \<and>
   getValidTimestamp demoEnv (JStr ''1970-01-01T00:00:00.000Z'') = 0 \<and>
   shouldReplaceUserEntry demoEnv (demoEntry 1 1 10 ''1970-01-01T00:00:00.000Z'')
                                  (demoEntry 1 1 10 ''1969-12-31T00:00:00.000Z'') \<and>
   \<not> shouldReplaceUserEntry demoEnv (demoEntry 1 1 10 ''2024-03-01T00:00:00.000Z'')
                                  (demoEntry 9 9 90 ''1970-01-01T00:00:00.000Z'') \<and>
   shouldReplaceUserEntry demoEnv (demoEntry 1 1 10 ''1970-01-01T00:00:00.000Z'') (demoEntry 2 0 0 ''never'')
     = shouldReplaceUserEntry demoEnv (demoEntry 1 1 10 ''yesterday'') (demoEntry 2 0 0 ''never'')"
proof -
  have p: "Date_parse demoEnv (updatedAt (demoEntry 1 1 10 ''1970-01-01T00:00:00.000Z'')) = Some 0"
    by (simp add: demoEnv_def demoEntry_def demoParse_def)
  have q: "Date_parse demoEnv (updatedAt (demoEntry 9 9 90 ''1970-01-01T00:00:00.000Z'')) = Some 0"
    by (simp add: demoEnv_def demoEntry_def demoParse_def)
  have a: "getValidTimestamp demoEnv (JStr ''1970-01-01T00:00:00.000Z'') = 0"
    using epoch_timestamp_counts_as_missing [OF p] by (simp add: demoEntry_def)
  have b: "shouldReplaceUserEntry demoEnv (demoEntry 1 1 10 ''1970-01-01T00:00:00.000Z'')
                                  (demoEntry 1 1 10 ''1969-12-31T00:00:00.000Z'')"
    using epoch_timestamp_counts_as_missing
            [OF p, where other = "demoEntry 1 1 10 ''1969-12-31T00:00:00.000Z''"]
    by (simp add: demo_simps)
  have c: "\<not> shouldReplaceUserEntry demoEnv (demoEntry 1 1 10 ''2024-03-01T00:00:00.000Z'')
                                  (demoEntry 9 9 90 ''1970-01-01T00:00:00.000Z'')"
    using epoch_timestamp_counts_as_missing
            [OF q, where other = "demoEntry 1 1 10 ''2024-03-01T00:00:00.000Z''"]
    by (simp add: demo_simps)
  have d: "shouldReplaceUserEntry demoEnv (demoEntry 1 1 10 ''1970-01-01T00:00:00.000Z'') (demoEntry 2 0 0 ''never'')
     = shouldReplaceUserEntry demoEnv (demoEntry 1 1 10 ''yesterday'') (demoEntry 2 0 0 ''never'')"
    using epoch_timestamp_counts_as_missing
            [OF p, where other = "demoEntry 2 0 0 ''never''" and invalid = "''yesterday''"]
    by (simp add: demo_simps)
  show ?thesis using p a b c d by simp
qed


section \<open>Properties of the entry sanitizer\<close>

lemma isPrediction_rawPrediction:
  "isPrediction (rawPrediction a b (JStr ''resolved''))"
  by (simp add: isPrediction_def rawPrediction_def field_def isString_def)

lemma sanitizePrediction_prices:
  "openPrice (sanitizePrediction u (JObj fs)) = (case field fs ''openPrice'' of JNum n \<Rightarrow> Some n | _ \<Rightarrow> None) \<and>
   closePrice (sanitizePrediction u (JObj fs)) = (case field fs ''closePrice'' of JNum n \<Rightarrow> Some n | _ \<Rightarrow> None)"
  by (simp add: sanitizePrediction_def Let_def)

lemma predictions_sanitizeUserEntry:
  "predictions (sanitizeUserEntry E now u e) =
     map (sanitizePrediction u)
       (filter isPrediction (case field e ''predictions'' of JArr xs \<Rightarrow> xs | _ \<Rightarrow> []))"
  by (simp add: sanitizeUserEntry_def Let_def)

text \<open>
  Claim C1, at the input of the repository's own test \<open>preserves numeric price data provided
  as strings when sanitizing entries\<close>: a resolved prediction whose prices are the strings
  \<open>'150.25'\<close> and \<open>'175.75'\<close>. The sanitizer keeps a price only when its type is
  \<open>number\<close>, so both prices of the result are \<open>null\<close>, where the claim and the test expect
  150.25 and 175.75.
\<close>

theorem sanitize_string_prices_become_null:
  "map openPrice (predictions (sanitizeUserEntry E now ''StringPlayer''
      [(''predictions'', JArr [rawPrediction (JStr ''150.25'') (JStr ''175.75'') (JStr ''resolved'')])])) = [None] \<and>
   map closePrice (predictions (sanitizeUserEntry E now ''StringPlayer''
      [(''predictions'', JArr [rawPrediction (JStr ''150.25'') (JStr ''175.75'') (JStr ''resolved'')])])) = [None]"
  by (simp add: predictions_sanitizeUserEntry field_def isPrediction_rawPrediction)
     (simp add: rawPrediction_def sanitizePrediction_def field_def Let_def)


lemma floor_half: "\<lfloor>(1 / 2 :: rat)\<rfloor> = 0"
  by (simp add: floor_eq_iff)

lemma mathRound_idem [simp]: "mathRound (mathRound x) = mathRound x"
  by (cases x) (simp_all add: floor_half)

lemma isPrediction_predictionToJS [simp]: "isPrediction (predictionToJS p)"
  by (simp add: isPrediction_def predictionToJS_def field_def isString_def)

lemma filter_typed_rest:
  "filter (\<lambda>kv. fst kv \<notin> set typedKeys) (filter (\<lambda>kv. fst kv \<notin> set typedKeys) fs)
     = filter (\<lambda>kv. fst kv \<notin> set typedKeys) fs"
  by simp

lemma sanitizePrediction_predictionToJS:
  "sanitizePrediction u (predictionToJS p) =
     p\<lparr>user := u, rest := filter (\<lambda>kv. fst kv \<notin> set typedKeys) (rest p)\<rparr>"
  by (cases "openPrice p"; cases "closePrice p"; cases "prediction p"; cases "period p"; cases "status p")
     (simp_all add: sanitizePrediction_def predictionToJS_def field_def Let_def stringOf_def
        directionOf_def periodOf_def priceToJS_def typedKeys_def)


lemma sanitizePrediction_fixed:
  "sanitizePrediction u (predictionToJS (sanitizePrediction u raw)) = sanitizePrediction u raw"
  unfolding sanitizePrediction_predictionToJS
  by (simp add: sanitizePrediction_def Let_def)

lemma resanitize_predictions:
  "map (sanitizePrediction u)
     (filter isPrediction (map predictionToJS (map (sanitizePrediction u) raws)))
   = map (sanitizePrediction u) raws"
  by (induction raws) (simp_all add: sanitizePrediction_fixed)

lemma field_entryToJS:
  "field (entryToJS r) ''predictions'' = JArr (map predictionToJS (predictions r))"
  "field (entryToJS r) ''pointsS1'' = JNum (pointsS1 r)"
  "field (entryToJS r) ''pointsS2'' = JNum (pointsS2 r)"
  "field (entryToJS r) ''updatedAt'' = JStr (updatedAt r)"
  by (simp_all add: field_def entryToJS_def)

text \<open>
  Claim C7. Sanitizing the result of \<open>sanitizeUserEntry\<close> again, under the same username and
  with the same current instant, gives the same entry (the same predictions, totals and
  \<open>updatedAt\<close>; a total that is NaN is NaN again).
\<close>

theorem sanitize_idempotent:
  "sanitizeUserEntry E nowISO username (entryToJS (sanitizeUserEntry E nowISO username entry))
     = sanitizeUserEntry E nowISO username entry"
proof -
  let ?r = "sanitizeUserEntry E nowISO username entry"
  let ?raws = "filter isPrediction (case field entry ''predictions'' of JArr xs \<Rightarrow> xs | _ \<Rightarrow> [])"
  have ps: "predictions ?r = map (sanitizePrediction username) ?raws"
    by (rule predictions_sanitizeUserEntry)
  have again: "map (sanitizePrediction username)
                 (filter isPrediction (map predictionToJS (predictions ?r))) = predictions ?r"
    unfolding ps by (rule resanitize_predictions)
  have s1: "pointsS1 ?r =
              (if predictions ?r \<noteq> [] then mathRound (calculateSystem1Points (predictions ?r))
               else mathRound (Number_js E (nullish (field entry ''pointsS1'') (JNum (Fin 0)))))"
    by (simp add: sanitizeUserEntry_def Let_def)
  have s2: "pointsS2 ?r =
              (if predictions ?r \<noteq> [] then mathRound (calculateSystem2Points (predictions ?r))
               else mathRound (Number_js E (nullish (field entry ''pointsS2'') (JNum (Fin 0)))))"
    by (simp add: sanitizeUserEntry_def Let_def)
  have t: "updatedAt ?r =
             (case field entry ''updatedAt'' of
                JStr s \<Rightarrow> (if s \<noteq> [] then s else nowISO) | _ \<Rightarrow> nowISO)"
    by (simp add: sanitizeUserEntry_def Let_def)
  have t': "(if updatedAt ?r \<noteq> [] then updatedAt ?r else nowISO) = updatedAt ?r"
    unfolding t by (simp split: jsval.splits)
  have "sanitizeUserEntry E nowISO username (entryToJS ?r) =
          \<lparr> predictions = predictions ?r, pointsS1 = pointsS1 ?r, pointsS2 = pointsS2 ?r,
            updatedAt = updatedAt ?r \<rparr>"
    unfolding sanitizeUserEntry_def [of E nowISO username "entryToJS ?r"] field_entryToJS
    using again s1 s2 t'
    by (simp add: Let_def nullish_def Number_js_def)
  then show ?thesis by simp
qed






section \<open>Properties of the response parser\<close>

lemma toCleanString_Some:
  "(toCleanString v = Some t) = (\<exists>s. v = JStr s \<and> t = trim s \<and> trim s \<noteq> [])"
  by (auto simp: toCleanString_def Let_def split: jsval.splits)

text \<open>
  Claim C5. The cases of \<open>parseSymbolSearchResponse\<close> on an object, in the order the parser
  tests them, each for the payloads no earlier case takes; a field is non-empty when it is a
  string whose trimmed text is not empty. A non-empty \<open>Note\<close>, or else a non-empty
  \<open>Information\<close>, gives no matches, the trimmed text as message, rate-limited and not
  cacheable. Else a non-empty \<open>Error Message\<close> gives no matches and its trimmed text, not
  rate-limited and not cacheable. Else a \<open>bestMatches\<close> that is a list gives the elements
  the per-element parser accepts, no message, not rate-limited and cacheable, and this is so
  when the parser drops every element.
\<close>

theorem parseSymbolSearchResponse_cases:
  "(field fs ''Note'' = JStr s \<and> trim s \<noteq> [] \<longrightarrow>
      parseSymbolSearchResponse E (JObj fs) =
        \<lparr> matches = [], message = Some (trim s), isRateLimited = True, isCacheable = False \<rparr>) \<and>
   (toCleanString (field fs ''Note'') = None \<and> field fs ''Information'' = JStr s \<and> trim s \<noteq> [] \<longrightarrow>
      parseSymbolSearchResponse E (JObj fs) =
        \<lparr> matches = [], message = Some (trim s), isRateLimited = True, isCacheable = False \<rparr>) \<and>
   (toCleanString (field fs ''Note'') = None \<and> toCleanString (field fs ''Information'') = None \<and>
    field fs ''Error Message'' = JStr s \<and> trim s \<noteq> [] \<longrightarrow>
      parseSymbolSearchResponse E (JObj fs) =
        \<lparr> matches = [], message = Some (trim s), isRateLimited = False, isCacheable = False \<rparr>) \<and>
   (toCleanString (field fs ''Note'') = None \<and> toCleanString (field fs ''Information'') = None \<and>
    toCleanString (field fs ''Error Message'') = None \<and> field fs ''bestMatches'' = JArr xs \<longrightarrow>
      parseSymbolSearchResponse E (JObj fs) =
        \<lparr> matches = List.map_filter (parseSymbolSearchMatch E) xs, message = None,
          isRateLimited = False, isCacheable = True \<rparr>) \<and>
   (toCleanString (field fs ''Note'') = None \<and> toCleanString (field fs ''Information'') = None \<and>
    toCleanString (field fs ''Error Message'') = None \<and> field fs ''bestMatches'' = JArr xs \<and>
    list_all (\<lambda>x. parseSymbolSearchMatch E x = None) xs \<longrightarrow>
      parseSymbolSearchResponse E (JObj fs) =
        \<lparr> matches = [], message = None, isRateLimited = False, isCacheable = True \<rparr>)"
proof -
  have none: "list_all (\<lambda>x. parseSymbolSearchMatch E x = None) xs \<Longrightarrow>
              List.map_filter (parseSymbolSearchMatch E) xs = []"
    by (induction xs) simp_all
  show ?thesis
    by (auto simp: parseSymbolSearchResponse_def isRecord_def isObject_def namedProps_def
          toCleanString_def Let_def none)
qed


text \<open>
  A rate-limit note, an \<open>Information\<close> beside a blank \<open>Note\<close>, an error message, and a
  list of two elements that are both dropped.
\<close>

theorem parseSymbolSearchResponse_cases_witness:
  "parseSymbolSearchResponse demoEnv (JObj [(''Note'', JStr ''Please try again later. '')]) =
     \<lparr> matches = [], message = Some ''Please try again later.'', isRateLimited = True,
       isCacheable = False \<rparr> \<and>
   parseSymbolSearchResponse demoEnv (JObj [(''Note'', JStr ''  ''), (''Information'', JStr ''Daily quota reached'')]) =
     \<lparr> matches = [], message = Some ''Daily quota reached'', isRateLimited = True,
       isCacheable = False \<rparr> \<and>
   parseSymbolSearchResponse demoEnv (JObj [(''Error Message'', JStr ''Invalid API call.'')]) =
     \<lparr> matches = [], message = Some ''Invalid API call.'', isRateLimited = False,
       isCacheable = False \<rparr> \<and>
   parseSymbolSearchResponse demoEnv (JObj [(''bestMatches'', JArr droppedMatches)]) =
     \<lparr> matches = [], message = None, isRateLimited = False, isCacheable = True \<rparr>"
proof -
  have t1: "trim ''Please try again later. '' = ''Please try again later.''"
   and t2: "trim ''  '' = []"
   and t3: "trim ''Daily quota reached'' = ''Daily quota reached''"
   and t4: "trim ''Invalid API call.'' = ''Invalid API call.''"
   and t5: "trim [] = []"
    by (simp_all add: trim_def isWhiteSpace_def)
  have a: "parseSymbolSearchResponse demoEnv (JObj [(''Note'', JStr ''Please try again later. '')]) =
     \<lparr> matches = [], message = Some ''Please try again later.'', isRateLimited = True,
       isCacheable = False \<rparr>"
    using parseSymbolSearchResponse_cases [where fs = "[(''Note'', JStr ''Please try again later. '')]"
                        and s = "''Please try again later. ''" and E = demoEnv]
    by (simp add: field_def t1)
  have b: "parseSymbolSearchResponse demoEnv
             (JObj [(''Note'', JStr ''  ''), (''Information'', JStr ''Daily quota reached'')]) =
     \<lparr> matches = [], message = Some ''Daily quota reached'', isRateLimited = True,
       isCacheable = False \<rparr>"
    using parseSymbolSearchResponse_cases [where fs = "[(''Note'', JStr ''  ''), (''Information'', JStr ''Daily quota reached'')]"
                        and s = "''Daily quota reached''" and E = demoEnv]
    by (simp add: field_def toCleanString_def t2 t3)
  have c: "parseSymbolSearchResponse demoEnv (JObj [(''Error Message'', JStr ''Invalid API call.'')]) =
     \<lparr> matches = [], message = Some ''Invalid API call.'', isRateLimited = False,
       isCacheable = False \<rparr>"
    using parseSymbolSearchResponse_cases [where fs = "[(''Error Message'', JStr ''Invalid API call.'')]"
                        and s = "''Invalid API call.''" and E = demoEnv]
    by (simp add: field_def toCleanString_def t4)
  have dropped: "list_all (\<lambda>x. parseSymbolSearchMatch demoEnv x = None) droppedMatches"
    by (simp add: droppedMatches_def parseSymbolSearchMatch_def isRecord_def isObject_def
          namedProps_def field_def toCleanString_def t5)
  have d: "parseSymbolSearchResponse demoEnv (JObj [(''bestMatches'', JArr droppedMatches)]) =
     \<lparr> matches = [], message = None, isRateLimited = False, isCacheable = True \<rparr>"
    using parseSymbolSearchResponse_cases [where fs = "[(''bestMatches'', JArr droppedMatches)]"
                        and xs = droppedMatches and E = demoEnv,
                       THEN conjunct2, THEN conjunct2, THEN conjunct2, THEN conjunct2] dropped
    by (simp add: field_def toCleanString_def)
  show ?thesis using a b c d by simp
qed


section \<open>Properties of the symbol search cache\<close>

lemma cloneObjects_Cons:
  "cloneObjects h (r # rs) =
     (nextAddr h # fst (cloneObjects (snd (allocObj h (objs h r))) rs),
      snd (cloneObjects (snd (allocObj h (objs h r))) rs))"
  by (simp add: allocObj_def split_beta)

lemma nextAddr_allocObj [simp]: "nextAddr (snd (allocObj h m)) = Suc (nextAddr h)"
  by (simp add: allocObj_def)

lemma arrs_allocObj [simp]: "arrs (snd (allocObj h m)) = arrs h"
  by (simp add: allocObj_def)

lemma objs_allocObj [simp]: "objs (snd (allocObj h m)) = (objs h)(nextAddr h := m)"
  by (simp add: allocObj_def)

lemma cloneObjects_next: "nextAddr (snd (cloneObjects h rs)) = nextAddr h + length rs"
  by (induction rs arbitrary: h) (simp_all add: cloneObjects_Cons del: cloneObjects.simps(2))

lemma cloneObjects_fst: "fst (cloneObjects h rs) = [nextAddr h ..< nextAddr h + length rs]"
  by (induction rs arbitrary: h)
     (simp_all add: cloneObjects_Cons upt_rec del: cloneObjects.simps(2) upt_Suc)

lemma cloneObjects_arrs: "arrs (snd (cloneObjects h rs)) = arrs h"
  by (induction rs arbitrary: h) (simp_all add: cloneObjects_Cons del: cloneObjects.simps(2))

lemma cloneObjects_objs_old: "x < nextAddr h \<Longrightarrow> objs (snd (cloneObjects h rs)) x = objs h x"
  by (induction rs arbitrary: h) (simp_all add: cloneObjects_Cons del: cloneObjects.simps(2))

lemma cloneObjects_copy:
  "list_all (\<lambda>r. r < nextAddr h) rs \<Longrightarrow>
     map (objs (snd (cloneObjects h rs))) (fst (cloneObjects h rs)) = map (objs h) rs"
proof (induction rs arbitrary: h)
  case Nil
  then show ?case by simp
next
  case (Cons r rs)
  let ?h1 = "snd (allocObj h (objs h r))"
  from Cons.prems have below: "list_all (\<lambda>r. r < nextAddr ?h1) rs"
    by (auto simp: list_all_iff)
  have "map (objs (snd (cloneObjects ?h1 rs))) (fst (cloneObjects ?h1 rs)) = map (objs ?h1) rs"
    by (rule Cons.IH [OF below])
  also have "\<dots> = map (objs h) rs"
    using Cons.prems by (auto simp: list_all_iff)
  finally have tl: "map (objs (snd (cloneObjects ?h1 rs))) (fst (cloneObjects ?h1 rs)) = map (objs h) rs" .
  have hd: "objs (snd (cloneObjects ?h1 rs)) (nextAddr h) = objs h r"
    by (simp add: cloneObjects_objs_old)
  show ?case
    unfolding cloneObjects_Cons using tl hd by simp
qed

lemma cloneMatches_eq:
  "cloneMatches h a =
     (nextAddr h + length (arrs h a),
      (snd (cloneObjects h (arrs h a)))
        \<lparr>arrs := (arrs h)(nextAddr h + length (arrs h a) := [nextAddr h ..< nextAddr h + length (arrs h a)]),
         nextAddr := Suc (nextAddr h + length (arrs h a))\<rparr>)"
  by (simp add: cloneMatches_def Let_def split_beta cloneObjects_next cloneObjects_fst cloneObjects_arrs)

lemma cloneMatches_fresh: "fst (cloneMatches h a) = nextAddr h + length (arrs h a)"
  by (simp add: cloneMatches_eq)

lemma cloneMatches_next: "nextAddr (snd (cloneMatches h a)) = Suc (fst (cloneMatches h a))"
  by (simp add: cloneMatches_eq)

lemma cloneMatches_refs:
  "arrs (snd (cloneMatches h a)) (fst (cloneMatches h a)) = [nextAddr h ..< fst (cloneMatches h a)]"
  by (simp add: cloneMatches_eq)

lemma cloneMatches_arrs_old:
  "x < nextAddr h \<Longrightarrow> arrs (snd (cloneMatches h a)) x = arrs h x"
  by (simp add: cloneMatches_eq)

lemma cloneMatches_objs_old:
  "x < nextAddr h \<Longrightarrow> objs (snd (cloneMatches h a)) x = objs h x"
  by (simp add: cloneMatches_eq cloneObjects_objs_old)

lemma cloneMatches_copy:
  "list_all (\<lambda>r. r < nextAddr h) (arrs h a) \<Longrightarrow>
     matchesAt (snd (cloneMatches h a)) (fst (cloneMatches h a)) = matchesAt h a"
  using cloneObjects_copy [of h "arrs h a"]
  by (simp add: cloneMatches_eq matchesAt_def cloneObjects_fst)


lemma list_all_update:
  "list_all P al \<Longrightarrow> P (k, v) \<Longrightarrow> list_all P (AList.update k v al)"
  by (induction al) auto

lemma list_all_delete: "list_all P al \<Longrightarrow> list_all P (AList.delete k al)"
  by (induction al) auto

lemma length_delete_present:
  "distinct (map fst al) \<Longrightarrow> map_of al k = Some e \<Longrightarrow> Suc (length (AList.delete k al)) = length al"
proof (induction al)
  case Nil
  then show ?case by simp
next
  case (Cons kv al)
  show ?case
  proof (cases "fst kv = k")
    case True
    with Cons.prems have "k \<notin> fst ` set al" by auto
    then have "AList.delete k al = al" by simp
    with True show ?thesis by (cases kv) simp
  next
    case False
    with Cons show ?thesis by (cases kv) auto
  qed
qed

lemma length_update_present:
  "map_of al k = Some e \<Longrightarrow> length (AList.update k v al) = length al"
  by (induction al) (auto split: if_splits)

lemma map_update_present:
  "map_of al k = Some e \<Longrightarrow> f (k, v) = f (k, e) \<Longrightarrow> map f (AList.update k v al) = map f al"
  by (induction al) (auto split: if_splits)

lemma map_of_list_all: "list_all P al \<Longrightarrow> map_of al k = Some e \<Longrightarrow> P (k, e)"
  by (auto simp: list_all_iff dest: map_of_SomeD)

lemma get_empty_key:
  "normalizeSymbolSearchKeyword keyword = [] \<Longrightarrow> get c h now keyword = (None, c, h)"
  by (simp add: get_def Let_def)

lemma get_miss:
  "map_of (cache c) (normalizeSymbolSearchKeyword keyword) = None \<Longrightarrow>
     get c h now keyword = (None, c, h)"
  by (simp add: get_def Let_def)

lemma get_expired:
  "normalizeSymbolSearchKeyword keyword = k \<Longrightarrow> k \<noteq> [] \<Longrightarrow> map_of (cache c) k = Some entry \<Longrightarrow>
   jle (expiresAt entry) (Fin (of_int now)) \<Longrightarrow>
     get c h now keyword = (None, c\<lparr>cache := AList.delete k (cache c)\<rparr>, h)"
  by (simp add: get_def Let_def)

lemma get_hit:
  "normalizeSymbolSearchKeyword keyword = k \<Longrightarrow> k \<noteq> [] \<Longrightarrow> map_of (cache c) k = Some entry \<Longrightarrow>
   \<not> jle (expiresAt entry) (Fin (of_int now)) \<Longrightarrow>
     get c h now keyword =
       (Some (fst (cloneMatches h (matches_e entry))),
        c\<lparr>accessSequence := accessSequence c + 1,
          cache := AList.update k (entry\<lparr>lastAccessed := accessSequence c + 1\<rparr>) (cache c)\<rparr>,
        snd (cloneMatches h (matches_e entry)))"
  by (simp add: get_def Let_def split_beta)

text \<open>The contents of a cache depend on the store only below the addresses it refers to.\<close>

lemma agreeBelow_iff:
  "agreeBelow n h1 h2 = (\<forall>x < n. objs h1 x = objs h2 x \<and> arrs h1 x = arrs h2 x)"
  by (auto simp: agreeBelow_def list_all_iff)

lemma matchesAt_agree:
  "agreeBelow n h1 h2 \<Longrightarrow> a < n \<Longrightarrow> list_all (\<lambda>r. r < n) (arrs h1 a) \<Longrightarrow>
     matchesAt h2 a = matchesAt h1 a"
  by (auto simp: agreeBelow_iff matchesAt_def list_all_iff)

lemma contents_agree:
  assumes "agreeBelow n h1 h2"
    and "list_all (\<lambda>kv. matches_e (snd kv) < n \<and> list_all (\<lambda>r. r < n) (arrs h1 (matches_e (snd kv)))) al"
  shows "contents (c\<lparr>cache := al\<rparr>) h2 = contents (c\<lparr>cache := al\<rparr>) h1"
  using assms(2) matchesAt_agree [OF assms(1)]
  by (auto simp: contents_def list_all_iff)

lemma agreeBelow_cloneMatches: "agreeBelow (nextAddr h) h (snd (cloneMatches h a))"
  by (simp add: agreeBelow_iff cloneMatches_arrs_old cloneMatches_objs_old)


lemma get_normalized:
  "normalizeSymbolSearchKeyword other = normalizeSymbolSearchKeyword keyword \<Longrightarrow>
     get c h now other = get c h now keyword"
  by (simp add: get_def)

lemma cacheInv_entry:
  assumes "cacheInv c h" and "map_of (cache c) k = Some entry"
  shows "lastAccessed entry \<le> accessSequence c"
    and "matches_e entry < nextAddr h"
    and "list_all (\<lambda>r. r < nextAddr h) (arrs h (matches_e entry))"
  using map_of_list_all [OF conjunct2 [OF assms(1) [unfolded cacheInv_def]] assms(2)]
  by simp_all

lemma cacheInv_markers:
  "cacheInv c h \<Longrightarrow> list_all (\<lambda>kv. lastAccessed (snd kv) < accessSequence c + 1) (cache c)"
  by (auto simp: cacheInv_def list_all_iff less_Suc_eq_le)

lemma cacheInv_addresses:
  "cacheInv c h \<Longrightarrow>
     list_all (\<lambda>kv. matches_e (snd kv) < nextAddr h \<and>
                    list_all (\<lambda>r. r < nextAddr h) (arrs h (matches_e (snd kv)))) (cache c)"
  by (auto simp: cacheInv_def list_all_iff)

lemma cacheInv_delete:
  "cacheInv c h \<Longrightarrow> cacheInv (c\<lparr>cache := AList.delete k (cache c)\<rparr>) h"
  by (simp add: cacheInv_def distinct_delete list_all_delete)

text \<open>An entry stays well-formed when the store grows by a clone and the counter by one.\<close>

lemma entry_ok_after_clone:
  assumes "lastAccessed e \<le> n" and "matches_e e < nextAddr h"
    and "list_all (\<lambda>r. r < nextAddr h) (arrs h (matches_e e))"
  shows "lastAccessed e \<le> n + 1 \<and>
         matches_e e < nextAddr (snd (cloneMatches h a)) \<and>
         list_all (\<lambda>r. r < nextAddr (snd (cloneMatches h a)))
           (arrs (snd (cloneMatches h a)) (matches_e e))"
  using assms
  by (auto simp: cloneMatches_next cloneMatches_fresh cloneMatches_arrs_old list_all_iff)

lemma cache_ok_after_clone:
  assumes "cacheInv c h"
  shows "list_all (\<lambda>kv. fst kv \<noteq> [] \<and>
                     lastAccessed (snd kv) \<le> accessSequence c + 1 \<and>
                     matches_e (snd kv) < nextAddr (snd (cloneMatches h a)) \<and>
                     list_all (\<lambda>r. r < nextAddr (snd (cloneMatches h a)))
                       (arrs (snd (cloneMatches h a)) (matches_e (snd kv)))) (cache c)"
proof (rule list.pred_mono_strong [OF conjunct2 [OF assms [unfolded cacheInv_def]]])
  fix kv
  assume "fst kv \<noteq> [] \<and> lastAccessed (snd kv) \<le> accessSequence c \<and>
          matches_e (snd kv) < nextAddr h \<and>
          list_all (\<lambda>r. r < nextAddr h) (arrs h (matches_e (snd kv)))"
  with entry_ok_after_clone [of "snd kv" "accessSequence c" h a]
  show "fst kv \<noteq> [] \<and>
        lastAccessed (snd kv) \<le> accessSequence c + 1 \<and>
        matches_e (snd kv) < nextAddr (snd (cloneMatches h a)) \<and>
        list_all (\<lambda>r. r < nextAddr (snd (cloneMatches h a)))
          (arrs (snd (cloneMatches h a)) (matches_e (snd kv)))"
    by simp
qed

lemma cacheInv_touch:
  assumes inv: "cacheInv c h" and k: "k \<noteq> []" and e: "map_of (cache c) k = Some entry"
  shows "cacheInv (c\<lparr>accessSequence := accessSequence c + 1,
                     cache := AList.update k (entry\<lparr>lastAccessed := accessSequence c + 1\<rparr>) (cache c)\<rparr>)
                  (snd (cloneMatches h (matches_e entry)))"
proof -
  note ok = cache_ok_after_clone [OF inv, of "matches_e entry"]
  from map_of_list_all [OF ok e]
  have new: "matches_e entry < nextAddr (snd (cloneMatches h (matches_e entry)))"
    "list_all (\<lambda>r. r < nextAddr (snd (cloneMatches h (matches_e entry))))
       (arrs (snd (cloneMatches h (matches_e entry))) (matches_e entry))"
    by simp_all
  have "list_all (\<lambda>kv. fst kv \<noteq> [] \<and>
                     lastAccessed (snd kv) \<le> accessSequence c + 1 \<and>
                     matches_e (snd kv) < nextAddr (snd (cloneMatches h (matches_e entry))) \<and>
                     list_all (\<lambda>r. r < nextAddr (snd (cloneMatches h (matches_e entry))))
                       (arrs (snd (cloneMatches h (matches_e entry))) (matches_e (snd kv))))
          (AList.update k (entry\<lparr>lastAccessed := accessSequence c + 1\<rparr>) (cache c))"
    by (rule list_all_update [OF ok]) (use k new in simp)
  moreover have "distinct (map fst (AList.update k (entry\<lparr>lastAccessed := accessSequence c + 1\<rparr>) (cache c)))"
    using inv by (simp add: cacheInv_def distinct_update)
  ultimately show ?thesis by (simp add: cacheInv_def)
qed

text \<open>
  Claim C8. On a cache in a state \<open>set\<close> and \<open>get\<close> can produce, \<open>get\<close> looks the
  keyword up by its trimmed lower-case form only. On an empty normalized key or a miss it
  returns \<open>null\<close> and changes nothing. When the entry's expiry is at or before the clock it
  removes the entry, so that the size goes down by one, and returns \<open>null\<close>. Otherwise it
  adds one to the counter and marks the entry with the new value, which is above every marker
  in the cache, and returns a new array of new objects equal by value to the stored matches:
  the array and its objects are at fresh addresses, and whatever is written afterwards at
  fresh addresses, the cache holds what it held.
\<close>

theorem get_behaviour:
  assumes inv: "cacheInv c h"
  shows "case get c h now keyword of (res, c', h') \<Rightarrow>
     (let k = normalizeSymbolSearchKeyword keyword in
      (\<forall>other. normalizeSymbolSearchKeyword other = k \<longrightarrow> get c h now other = (res, c', h')) \<and>
      (k = [] \<or> map_of (cache c) k = None \<longrightarrow> res = None \<and> c' = c \<and> h' = h) \<and>
      (\<forall>entry. k \<noteq> [] \<and> map_of (cache c) k = Some entry \<and> jle (expiresAt entry) (Fin (of_int now)) \<longrightarrow>
         res = None \<and> h' = h \<and> c' = c\<lparr>cache := AList.delete k (cache c)\<rparr> \<and>
         map_of (cache c') k = None \<and> Suc (size_cache c') = size_cache c \<and> cacheInv c' h') \<and>
      (\<forall>entry. k \<noteq> [] \<and> map_of (cache c) k = Some entry \<and> \<not> jle (expiresAt entry) (Fin (of_int now)) \<longrightarrow>
         (\<exists>copy. res = Some copy \<and> nextAddr h \<le> copy \<and>
                 list_all (\<lambda>r. nextAddr h \<le> r) (arrs h' copy) \<and>
                 matchesAt h' copy = matchesAt h (matches_e entry)) \<and>
         accessSequence c' = accessSequence c + 1 \<and>
         map_of (cache c') k = Some (entry\<lparr>lastAccessed := accessSequence c + 1\<rparr>) \<and>
         list_all (\<lambda>kv. lastAccessed (snd kv) < accessSequence c + 1) (cache c) \<and>
         size_cache c' = size_cache c \<and>
         contents c' h' = contents c h \<and>
         (\<forall>h''. agreeBelow (nextAddr h) h' h'' \<longrightarrow> contents c' h'' = contents c h) \<and>
         cacheInv c' h'))"
proof -
  define k where "k = normalizeSymbolSearchKeyword keyword"
  show ?thesis
  proof (cases "k = [] \<or> map_of (cache c) k = None")
    case True
    then have g: "get c h now keyword = (None, c, h)"
      using get_empty_key [of keyword c h now] get_miss [of c keyword h now] by (auto simp: k_def)
    have c1: "get c h now other = (None, c, h)" if "normalizeSymbolSearchKeyword other = k" for other
      using get_normalized [of other keyword c h now] that g by (simp add: k_def)
    from True c1 show ?thesis
      unfolding g by (auto simp: Let_def k_def [symmetric])
  next
    case False
    then obtain entry where k: "k \<noteq> []" and e: "map_of (cache c) k = Some entry" by auto
    show ?thesis
    proof (cases "jle (expiresAt entry) (Fin (of_int now))")
      case True
      have g: "get c h now keyword = (None, c\<lparr>cache := AList.delete k (cache c)\<rparr>, h)"
        by (rule get_expired [OF k_def [symmetric] k e True])
      have c1: "get c h now other = (None, c\<lparr>cache := AList.delete k (cache c)\<rparr>, h)"
        if "normalizeSymbolSearchKeyword other = k" for other
        using get_normalized [of other keyword c h now] that g by (simp add: k_def)
      have gone: "map_of (AList.delete k (cache c)) k = None"
        by (simp add: delete_conv')
      have fewer: "Suc (length (AList.delete k (cache c))) = length (cache c)"
        using inv e by (simp add: cacheInv_def length_delete_present)
      from c1 k e True gone fewer cacheInv_delete [OF inv, of k]
      show ?thesis
        unfolding g by (simp add: k_def [symmetric] Let_def size_cache_def)
    next
      case False
      define copy where "copy = fst (cloneMatches h (matches_e entry))"
      define h' where "h' = snd (cloneMatches h (matches_e entry))"
      define c' where "c' = c\<lparr>accessSequence := accessSequence c + 1,
                              cache := AList.update k (entry\<lparr>lastAccessed := accessSequence c + 1\<rparr>) (cache c)\<rparr>"
      have g: "get c h now keyword = (Some copy, c', h')"
        unfolding copy_def h'_def c'_def by (rule get_hit [OF k_def [symmetric] k e False])
      have c1: "get c h now other = (Some copy, c', h')"
        if "normalizeSymbolSearchKeyword other = k" for other
        using get_normalized [of other keyword c h now] that g by (simp add: k_def)
      note ent = cacheInv_entry [OF inv e]
      have fresh: "nextAddr h \<le> copy" by (simp add: copy_def cloneMatches_fresh)
      have refs: "list_all (\<lambda>r. nextAddr h \<le> r) (arrs h' copy)"
        by (simp add: copy_def h'_def cloneMatches_refs list_all_iff)
      have same: "matchesAt h' copy = matchesAt h (matches_e entry)"
        unfolding copy_def h'_def by (rule cloneMatches_copy [OF ent(3)])
      have seq: "accessSequence c' = accessSequence c + 1" by (simp add: c'_def)
      have found: "map_of (cache c') k = Some (entry\<lparr>lastAccessed := accessSequence c + 1\<rparr>)"
        by (simp add: c'_def update_conv')
      have markers: "list_all (\<lambda>kv. lastAccessed (snd kv) < accessSequence c + 1) (cache c)"
        by (rule cacheInv_markers [OF inv])
      have size: "size_cache c' = size_cache c"
        using e by (simp add: c'_def size_cache_def length_update_present)
      have byValue: "contents c' hx = contents c hx" for hx
        unfolding contents_def c'_def using e by (simp add: map_update_present)
      have frame: "contents c h'' = contents c h" if "agreeBelow (nextAddr h) h h''" for h''
        using contents_agree [OF that cacheInv_addresses [OF inv], of c] by simp
      have grown: "agreeBelow (nextAddr h) h h'"
        unfolding h'_def by (rule agreeBelow_cloneMatches)
      have cont: "contents c' h' = contents c h"
        using byValue frame [OF grown] by simp
      have mut: "\<forall>h''. agreeBelow (nextAddr h) h' h'' \<longrightarrow> contents c' h'' = contents c h"
      proof (intro allI impI)
        fix h'' assume "agreeBelow (nextAddr h) h' h''"
        with grown have "agreeBelow (nextAddr h) h h''" by (simp add: agreeBelow_iff)
        with byValue frame show "contents c' h'' = contents c h" by simp
      qed
      have inv': "cacheInv c' h'"
        unfolding c'_def h'_def by (rule cacheInv_touch [OF inv k e])
      from c1 k e False fresh refs same seq found markers size cont mut inv'
      show ?thesis
        unfolding g by (simp add: k_def [symmetric] Let_def)
    qed
  qed
qed


lemma cacheInv_create: "cacheInv (createSymbolSearchCache options) h"
  by (simp add: cacheInv_def createSymbolSearchCache_def)

lemma cacheInv_evictOldest:
  "cacheInv (c\<lparr>cache := al\<rparr>) h \<Longrightarrow> cacheInv (c\<lparr>cache := evictOldest al\<rparr>) h"
  using cacheInv_delete [where c = "c\<lparr>cache := al\<rparr>" and h = h]
  by (auto simp: evictOldest_def split: option.splits)

lemma cacheInv_store:
  assumes inv: "cacheInv c h" and k: "k \<noteq> []"
  shows "cacheInv (c\<lparr>accessSequence := accessSequence c + 1,
                     cache := AList.update k \<lparr> matches_e = fst (cloneMatches h a), expiresAt = t,
                                                lastAccessed = accessSequence c + 1 \<rparr> (cache c)\<rparr>)
                  (snd (cloneMatches h a))"
proof -
  note ok = cache_ok_after_clone [OF inv, of a]
  have "list_all (\<lambda>kv. fst kv \<noteq> [] \<and>
                     lastAccessed (snd kv) \<le> accessSequence c + 1 \<and>
                     matches_e (snd kv) < nextAddr (snd (cloneMatches h a)) \<and>
                     list_all (\<lambda>r. r < nextAddr (snd (cloneMatches h a)))
                       (arrs (snd (cloneMatches h a)) (matches_e (snd kv))))
          (AList.update k \<lparr> matches_e = fst (cloneMatches h a), expiresAt = t,
                            lastAccessed = accessSequence c + 1 \<rparr> (cache c))"
    by (rule list_all_update [OF ok])
       (use k in \<open>simp add: cloneMatches_next cloneMatches_refs list_all_iff\<close>)
  moreover have "distinct (map fst (AList.update k \<lparr> matches_e = fst (cloneMatches h a), expiresAt = t,
                            lastAccessed = accessSequence c + 1 \<rparr> (cache c)))"
    using inv by (simp add: cacheInv_def distinct_update)
  ultimately show ?thesis by (simp add: cacheInv_def)
qed

lemma cacheInv_set:
  assumes inv: "cacheInv c h"
  shows "cacheInv (fst (set_cache c h now keyword m)) (snd (set_cache c h now keyword m))"
proof (cases "jeq (maxEntries c) (Fin 0) \<or> normalizeSymbolSearchKeyword keyword = []")
  case True
  then show ?thesis using inv by (auto simp: set_cache_def Let_def)
next
  case False
  define k where "k = normalizeSymbolSearchKeyword keyword"
  define c1 where "c1 = c\<lparr>accessSequence := accessSequence c + 1,
                     cache := AList.update k \<lparr> matches_e = fst (cloneMatches h m),
                                                expiresAt = jadd (Fin (of_int now)) (ttlMs c),
                                                lastAccessed = accessSequence c + 1 \<rparr> (cache c)\<rparr>"
  have k: "k \<noteq> []" using False by (simp add: k_def)
  have inv1: "cacheInv c1 (snd (cloneMatches h m))"
    unfolding c1_def by (rule cacheInv_store [OF inv k])
  have inv2: "cacheInv (c1\<lparr>cache := evictOldest (cache c1)\<rparr>) (snd (cloneMatches h m))"
    using cacheInv_evictOldest [where c = c1 and al = "cache c1"] inv1 by simp
  have "set_cache c h now keyword m =
          (if jgt (Fin (of_nat (length (cache c1)))) (maxEntries c)
           then c1\<lparr>cache := evictOldest (cache c1)\<rparr> else c1, snd (cloneMatches h m))"
    using False by (simp add: set_cache_def Let_def split_beta k_def c1_def)
  with inv1 inv2 show ?thesis by simp
qed

lemma cacheInv_get:
  assumes inv: "cacheInv c h"
  shows "cacheInv (fst (snd (get c h now keyword))) (snd (snd (get c h now keyword)))"
proof -
  define k where "k = normalizeSymbolSearchKeyword keyword"
  show ?thesis
  proof (cases "k = [] \<or> map_of (cache c) k = None")
    case True
    then have "get c h now keyword = (None, c, h)"
      using get_empty_key [of keyword c h now] get_miss [of c keyword h now] by (auto simp: k_def)
    with inv show ?thesis by simp
  next
    case False
    then obtain entry where k: "k \<noteq> []" and e: "map_of (cache c) k = Some entry" by auto
    show ?thesis
    proof (cases "jle (expiresAt entry) (Fin (of_int now))")
      case True
      from get_expired [OF k_def [symmetric] k e True] cacheInv_delete [OF inv, of k]
      show ?thesis by simp
    next
      case False
      from get_hit [OF k_def [symmetric] k e False] cacheInv_touch [OF inv k e]
      show ?thesis by simp
    qed
  qed
qed

lemma set_cache_disabled:
  "jeq (maxEntries c) (Fin 0) \<Longrightarrow> set_cache c h now keyword m = (c, h)"
  by (simp add: set_cache_def)

lemma get_empty_cache: "cache c = [] \<Longrightarrow> get c h now keyword = (None, c, h)"
  by (simp add: get_def Let_def)

lemma runCalls_disabled:
  "jeq (maxEntries c) (Fin 0) \<Longrightarrow> cache c = [] \<Longrightarrow> runCalls c h calls = (c, h)"
proof (induction calls)
  case Nil
  then show ?case by simp
next
  case (Cons call calls)
  then show ?case
    by (cases call) (simp_all add: set_cache_disabled get_empty_cache)
qed

lemma maxEntries_create_zero:
  "(maxEntries (createSymbolSearchCache options) = Fin 0) =
     (\<exists>x. maxEntries_opt options = Some (Fin x) \<and> 0 < x \<and> x < 1)"
proof (cases "maxEntries_opt options")
  case None
  then show ?thesis
    by (simp add: createSymbolSearchCache_def DEFAULT_CACHE_MAX_ENTRIES_def)
next
  case (Some n)
  show ?thesis
  proof (cases n)
    case (Fin x)
    have "(\<lfloor>x\<rfloor> = 0) = (0 \<le> x \<and> x < 1)" by (simp add: floor_eq_iff)
    with Some Fin show ?thesis
      by (auto simp: createSymbolSearchCache_def DEFAULT_CACHE_MAX_ENTRIES_def jgt_def)
  qed (use Some in \<open>simp_all add: createSymbolSearchCache_def DEFAULT_CACHE_MAX_ENTRIES_def jgt_def\<close>)
qed

text \<open>
  What the guard \<open>if (maxEntries === 0) return;\<close> of \<open>set\<close> does on the code as it is. The
  variable \<open>maxEntries\<close> of a cache is 0 exactly when the option is a number above 0 and
  below 1, which \<open>Math.floor\<close> takes to 0; the option 0 itself is replaced by the default.
  On a cache whose \<open>maxEntries\<close> is 0, \<open>set\<close> changes neither the cache nor the store for
  any keyword and any match list, \<open>size()\<close> is 0, \<open>get\<close> returns \<open>null\<close> for every
  keyword, and this stays so after any sequence of calls.
\<close>

lemma storage_disabled_when_maxEntries_floors_to_zero:
  "(maxEntries (createSymbolSearchCache options) = Fin 0) =
     (\<exists>x. maxEntries_opt options = Some (Fin x) \<and> 0 < x \<and> x < 1) \<and>
   (maxEntries_opt options = Some (Fin 0) \<longrightarrow>
      maxEntries (createSymbolSearchCache options) = DEFAULT_CACHE_MAX_ENTRIES) \<and>
   (maxEntries (createSymbolSearchCache options) = Fin 0 \<longrightarrow>
      set_cache (createSymbolSearchCache options) h now keyword m = (createSymbolSearchCache options, h) \<and>
      size_cache (createSymbolSearchCache options) = 0 \<and>
      get (createSymbolSearchCache options) h now keyword = (None, createSymbolSearchCache options, h) \<and>
      runCalls (createSymbolSearchCache options) h calls = (createSymbolSearchCache options, h))"
proof (intro conjI impI)
  show "(maxEntries (createSymbolSearchCache options) = Fin 0) =
     (\<exists>x. maxEntries_opt options = Some (Fin x) \<and> 0 < x \<and> x < 1)"
    by (rule maxEntries_create_zero)
next
  assume "maxEntries_opt options = Some (Fin 0)"
  then show "maxEntries (createSymbolSearchCache options) = DEFAULT_CACHE_MAX_ENTRIES"
    by (simp add: createSymbolSearchCache_def jgt_def)
next
  assume z: "maxEntries (createSymbolSearchCache options) = Fin 0"
  have empty: "cache (createSymbolSearchCache options) = []"
    by (simp add: createSymbolSearchCache_def)
  from z show "set_cache (createSymbolSearchCache options) h now keyword m = (createSymbolSearchCache options, h)"
    by (simp add: set_cache_disabled)
  show "size_cache (createSymbolSearchCache options) = 0"
    by (simp add: size_cache_def empty)
  show "get (createSymbolSearchCache options) h now keyword = (None, createSymbolSearchCache options, h)"
    by (rule get_empty_cache [OF empty])
  from z show "runCalls (createSymbolSearchCache options) h calls = (createSymbolSearchCache options, h)"
    by (simp add: runCalls_disabled empty)
qed


lemma normalize_examples:
  "normalizeSymbolSearchKeyword ''AAPL'' = ''aapl''"
  "normalizeSymbolSearchKeyword ''aapl'' = ''aapl''"
  "normalizeSymbolSearchKeyword ''  AApL '' = ''aapl''"
  "normalizeSymbolSearchKeyword ''msft'' = ''msft''"
  "normalizeSymbolSearchKeyword ''   '' = []"
  by code_simp+

lemma cloneMatches_demoHeap:
  "cloneMatches demoHeap 3 = (5, demoHeap1)"
  by (simp add: cloneMatches_def demoHeap_def demoHeap1_def allocObj_def Let_def)

lemma set_demo:
  "set_cache (createSymbolSearchCache defaultOptions) demoHeap 1000 ''AAPL'' 3 = (demoCache, demoHeap1)"
  by (simp add: set_cache_def createSymbolSearchCache_def defaultOptions_def
        DEFAULT_CACHE_MAX_ENTRIES_def DEFAULT_CACHE_TTL_MS_def jeq_def jgt_def Let_def
        normalize_examples cloneMatches_demoHeap demoCache_def)

lemma cacheInv_demo: "cacheInv demoCache demoHeap1"
  using cacheInv_set [OF cacheInv_create, of defaultOptions demoHeap 1000 "''AAPL''" 3]
  by (simp add: set_demo)

lemma matchesAt_demoHeap1: "matchesAt demoHeap1 5 = [demoMatch]"
  by (simp add: matchesAt_def demoHeap1_def demoHeap_def)

text \<open>
  Claim C2, at a cache created with the option \<open>maxEntries = 0\<close>. The claim says that
  storage is disabled: \<open>set\<close> is a no-op, \<open>size()\<close> stays 0 and \<open>get\<close> returns
  \<open>null\<close>. The guard \<open>if (maxEntries === 0) return;\<close> of \<open>set\<close> is there for it, but
  \<open>createSymbolSearchCache\<close> accepts the option only when it is \<open>> 0\<close> and so replaces 0
  by the default of 50 entries: \<open>set\<close> stores the entry, \<open>size()\<close> is 1 and \<open>get\<close>
  returns the matches.
\<close>

theorem maxEntries_option_zero_still_stores:
  "maxEntries (createSymbolSearchCache \<lparr> ttlMs_opt = None, maxEntries_opt = Some (Fin 0) \<rparr>) = Fin 50 \<and>
   size_cache (fst (set_cache (createSymbolSearchCache \<lparr> ttlMs_opt = None, maxEntries_opt = Some (Fin 0) \<rparr>)
                      demoHeap 1000 ''AAPL'' 3)) = 1 \<and>
   fst (get (fst (set_cache (createSymbolSearchCache \<lparr> ttlMs_opt = None, maxEntries_opt = Some (Fin 0) \<rparr>)
                      demoHeap 1000 ''AAPL'' 3))
            (snd (set_cache (createSymbolSearchCache \<lparr> ttlMs_opt = None, maxEntries_opt = Some (Fin 0) \<rparr>)
                      demoHeap 1000 ''AAPL'' 3)) 2000 ''aapl'') \<noteq> None"
proof -
  have same: "createSymbolSearchCache \<lparr> ttlMs_opt = None, maxEntries_opt = Some (Fin 0) \<rparr>
                = createSymbolSearchCache defaultOptions"
    by (simp add: createSymbolSearchCache_def defaultOptions_def jgt_def)
  have hit: "fst (get demoCache demoHeap1 2000 ''aapl'') \<noteq> None"
    by (simp add: get_def normalize_examples demoCache_def jle_def Let_def split_beta)
  show ?thesis
    unfolding same set_demo using hit
    by (simp add: createSymbolSearchCache_def defaultOptions_def DEFAULT_CACHE_MAX_ENTRIES_def
          size_cache_def demoCache_def)
qed

text \<open>The option \<open>maxEntries = 0.5\<close> disables the storage; the option 0 does not.\<close>

lemma storage_disabled_when_maxEntries_floors_to_zero_example:
  "maxEntries (createSymbolSearchCache \<lparr> ttlMs_opt = None, maxEntries_opt = Some (Fin (1 / 2)) \<rparr>) = Fin 0 \<and>
   set_cache (createSymbolSearchCache \<lparr> ttlMs_opt = None, maxEntries_opt = Some (Fin (1 / 2)) \<rparr>)
     demoHeap 1000 ''AAPL'' 3
     = (createSymbolSearchCache \<lparr> ttlMs_opt = None, maxEntries_opt = Some (Fin (1 / 2)) \<rparr>, demoHeap) \<and>
   size_cache (createSymbolSearchCache \<lparr> ttlMs_opt = None, maxEntries_opt = Some (Fin (1 / 2)) \<rparr>) = 0 \<and>
   get (createSymbolSearchCache \<lparr> ttlMs_opt = None, maxEntries_opt = Some (Fin (1 / 2)) \<rparr>)
     demoHeap 2000 ''aapl''
     = (None, createSymbolSearchCache \<lparr> ttlMs_opt = None, maxEntries_opt = Some (Fin (1 / 2)) \<rparr>, demoHeap) \<and>
   runCalls (createSymbolSearchCache \<lparr> ttlMs_opt = None, maxEntries_opt = Some (Fin (1 / 2)) \<rparr>)
     demoHeap [CallSet 1000 ''AAPL'' 3, CallGet 2000 ''aapl'', CallSet 3000 ''msft'' 3]
     = (createSymbolSearchCache \<lparr> ttlMs_opt = None, maxEntries_opt = Some (Fin (1 / 2)) \<rparr>, demoHeap) \<and>
   maxEntries (createSymbolSearchCache \<lparr> ttlMs_opt = None, maxEntries_opt = Some (Fin 0) \<rparr>)
     = DEFAULT_CACHE_MAX_ENTRIES"
proof -
  let ?half = "\<lparr> ttlMs_opt = None, maxEntries_opt = Some (Fin (1 / 2)) \<rparr>"
  let ?zero = "\<lparr> ttlMs_opt = None, maxEntries_opt = Some (Fin 0) \<rparr>"
  have ex: "\<exists>x. maxEntries_opt ?half = Some (Fin x) \<and> 0 < x \<and> x < 1"
    by (rule exI [of _ "1 / 2"]) simp
  have z: "maxEntries (createSymbolSearchCache ?half) = Fin 0"
    using storage_disabled_when_maxEntries_floors_to_zero [of ?half, THEN conjunct1] ex by blast
  have a: "set_cache (createSymbolSearchCache ?half) demoHeap 1000 ''AAPL'' 3
             = (createSymbolSearchCache ?half, demoHeap)"
    using storage_disabled_when_maxEntries_floors_to_zero [of ?half demoHeap 1000 "''AAPL''" 3] z
    by simp
  have b: "size_cache (createSymbolSearchCache ?half) = 0"
    using storage_disabled_when_maxEntries_floors_to_zero [of ?half] z by simp
  have c: "get (createSymbolSearchCache ?half) demoHeap 2000 ''aapl''
             = (None, createSymbolSearchCache ?half, demoHeap)"
    using storage_disabled_when_maxEntries_floors_to_zero [of ?half demoHeap 2000 "''aapl''"] z
    by simp
  have d: "runCalls (createSymbolSearchCache ?half) demoHeap
             [CallSet 1000 ''AAPL'' 3, CallGet 2000 ''aapl'', CallSet 3000 ''msft'' 3]
             = (createSymbolSearchCache ?half, demoHeap)"
    using storage_disabled_when_maxEntries_floors_to_zero
            [where options = ?half and h = demoHeap
               and calls = "[CallSet 1000 ''AAPL'' 3, CallGet 2000 ''aapl'', CallSet 3000 ''msft'' 3]"] z
    by simp
  have e: "maxEntries (createSymbolSearchCache ?zero) = DEFAULT_CACHE_MAX_ENTRIES"
    using storage_disabled_when_maxEntries_floors_to_zero [of ?zero] by simp
  show ?thesis using z a b c d e by simp
qed

text \<open>
  After \<open>set('AAPL', m)\<close> at time 1000 on a default cache, \<open>get('aapl')\<close> at time 2000
  returns a copy equal to \<open>m\<close>, as does \<open>get('  AApL ')\<close>, and emptying the returned array
  leaves the cached matches; at time 301000 the entry has expired, \<open>get\<close> returns \<open>null\<close>
  and the size goes from 1 to 0; another keyword and a blank keyword give \<open>null\<close>.
\<close>

theorem get_behaviour_witness:
  "set_cache (createSymbolSearchCache defaultOptions) demoHeap 1000 ''AAPL'' 3 = (demoCache, demoHeap1) \<and>
   cacheInv demoCache demoHeap1 \<and>
   (\<exists>copy. fst (get demoCache demoHeap1 2000 ''aapl'') = Some copy \<and> 6 \<le> copy \<and>
      matchesAt (snd (snd (get demoCache demoHeap1 2000 ''aapl''))) copy = [demoMatch] \<and>
      contents (fst (snd (get demoCache demoHeap1 2000 ''aapl'')))
        ((snd (snd (get demoCache demoHeap1 2000 ''aapl'')))
           \<lparr>arrs := (arrs (snd (snd (get demoCache demoHeap1 2000 ''aapl''))))(copy := [])\<rparr>)
        = [(''aapl'', [demoMatch], Fin 301000)]) \<and>
   get demoCache demoHeap1 2000 ''  AApL '' = get demoCache demoHeap1 2000 ''aapl'' \<and>
   accessSequence (fst (snd (get demoCache demoHeap1 2000 ''aapl''))) = 2 \<and>
   map_of (cache (fst (snd (get demoCache demoHeap1 2000 ''aapl'')))) ''aapl''
     = Some \<lparr> matches_e = 5, expiresAt = Fin 301000, lastAccessed = 2 \<rparr> \<and>
   fst (get demoCache demoHeap1 301000 ''AAPL'') = None \<and>
   size_cache (fst (snd (get demoCache demoHeap1 301000 ''AAPL''))) = 0 \<and>
   size_cache demoCache = 1 \<and>
   get demoCache demoHeap1 2000 ''msft'' = (None, demoCache, demoHeap1) \<and>
   get demoCache demoHeap1 2000 ''   '' = (None, demoCache, demoHeap1)"
proof -
  note inv = cacheInv_demo
  have entry: "map_of (cache demoCache) ''aapl''
                 = Some \<lparr> matches_e = 5, expiresAt = Fin 301000, lastAccessed = 1 \<rparr>"
    and other: "map_of (cache demoCache) ''msft'' = None"
    and size: "size_cache demoCache = 1"
    and next6: "nextAddr demoHeap1 = 6"
    and seq: "accessSequence demoCache = 1"
    by (simp_all add: demoCache_def demoHeap1_def size_cache_def)
  have conts: "contents demoCache demoHeap1 = [(''aapl'', [demoMatch], Fin 301000)]"
    by (simp add: contents_def demoCache_def matchesAt_demoHeap1)
  obtain res c' h' where g: "get demoCache demoHeap1 2000 ''aapl'' = (res, c', h')"
    by (cases "get demoCache demoHeap1 2000 ''aapl''")
  have hit: "(\<forall>other. normalizeSymbolSearchKeyword other = ''aapl'' \<longrightarrow>
                get demoCache demoHeap1 2000 other = (res, c', h')) \<and>
             (\<exists>copy. res = Some copy \<and> 6 \<le> copy \<and> matchesAt h' copy = [demoMatch]) \<and>
             accessSequence c' = 2 \<and>
             map_of (cache c') ''aapl'' = Some \<lparr> matches_e = 5, expiresAt = Fin 301000, lastAccessed = 2 \<rparr> \<and>
             (\<forall>h''. agreeBelow 6 h' h'' \<longrightarrow> contents c' h'' = [(''aapl'', [demoMatch], Fin 301000)])"
    using get_behaviour [OF inv, where now = 2000 and keyword = "''aapl''"]
    unfolding g
    by (simp add: Let_def normalize_examples entry jle_def next6 seq conts matchesAt_demoHeap1) blast
  then obtain copy where copy: "res = Some copy" "6 \<le> copy" "matchesAt h' copy = [demoMatch]"
    by blast
  have "agreeBelow 6 h' (h'\<lparr>arrs := (arrs h')(copy := [])\<rparr>)"
    using copy(2) by (simp add: agreeBelow_iff)
  with hit have emptied: "contents c' (h'\<lparr>arrs := (arrs h')(copy := [])\<rparr>)
                            = [(''aapl'', [demoMatch], Fin 301000)]"
    by blast
  have a: "\<exists>copy. res = Some copy \<and> 6 \<le> copy \<and> matchesAt h' copy = [demoMatch] \<and>
             contents c' (h'\<lparr>arrs := (arrs h')(copy := [])\<rparr>) = [(''aapl'', [demoMatch], Fin 301000)]"
    using copy emptied by blast
  have b: "get demoCache demoHeap1 2000 ''  AApL '' = (res, c', h')"
    using hit by (simp add: normalize_examples)
  obtain res2 c2 h2 where g2: "get demoCache demoHeap1 301000 ''AAPL'' = (res2, c2, h2)"
    by (cases "get demoCache demoHeap1 301000 ''AAPL''")
  have late: "res2 = None \<and> size_cache c2 = 0"
    using get_behaviour [OF inv, where now = 301000 and keyword = "''AAPL''"] size
    unfolding g2
    by (auto simp: Let_def normalize_examples entry jle_def)
  have h: "get demoCache demoHeap1 2000 ''msft'' = (None, demoCache, demoHeap1)"
    using get_behaviour [OF inv, where now = 2000 and keyword = "''msft''"]
    by (cases "get demoCache demoHeap1 2000 ''msft''")
       (simp add: Let_def normalize_examples other)
  have i: "get demoCache demoHeap1 2000 ''   '' = (None, demoCache, demoHeap1)"
    using get_behaviour [OF inv, where now = 2000 and keyword = "''   ''"]
    by (cases "get demoCache demoHeap1 2000 ''   ''")
       (simp add: Let_def normalize_examples)
  show ?thesis
    unfolding g g2 b using set_demo inv a hit late size h i by simp
qed


section \<open>Properties of the merge resolver: folding a batch into the collection\<close>

lemma lookupUser_plain:
  "proto m = None \<Longrightarrow> username \<notin> set objectPrototypeNames \<Longrightarrow>
     lookupUser m username = (case map_of (own m) username of None \<Rightarrow> Absent | Some e \<Rightarrow> Entry e)"
  by (simp add: lookupUser_def split: option.splits)

lemma assignUser_plain:
  "username \<notin> set objectPrototypeNames \<Longrightarrow>
     assignUser m username e = m\<lparr>own := AList.update username e (own m)\<rparr>"
  by (auto simp: assignUser_def objectPrototypeNames_def)

lemma mergeEntry_plain:
  assumes "proto (mergedUsers S) = None" and "fst kv \<notin> set objectPrototypeNames"
  shows "mergeEntry E now exclude S kv =
           (if specAdded (own (mergedUsers S)) exclude kv then
              S\<lparr> mergedUsers := (mergedUsers S)\<lparr>own := AList.update (fst kv) (incomingRecord E now kv)
                                                       (own (mergedUsers S))\<rparr>,
                 added := added S @ [fst kv] \<rparr>
            else if specUpdated E now (own (mergedUsers S)) exclude kv then
              S\<lparr> mergedUsers := (mergedUsers S)\<lparr>own := AList.update (fst kv) (incomingRecord E now kv)
                                                       (own (mergedUsers S))\<rparr>,
                 updated := updated S @ [fst kv] \<rparr>
            else S)"
  using assms
  by (auto simp: mergeEntry_def Let_def lookupUser_plain assignUser_plain specAdded_def
        specUpdated_def skipped_def incomingRecord_def split: option.splits)

lemma mergeEntry_plain_facts:
  assumes p: "proto (mergedUsers S) = None" and n: "fst kv \<notin> set objectPrototypeNames"
  shows "proto (mergedUsers (mergeEntry E now exclude S kv)) = None"
    and "added (mergeEntry E now exclude S kv) =
           added S @ (if specAdded (own (mergedUsers S)) exclude kv then [fst kv] else [])"
    and "updated (mergeEntry E now exclude S kv) =
           updated S @ (if specUpdated E now (own (mergedUsers S)) exclude kv then [fst kv] else [])"
    and "map_of (own (mergedUsers (mergeEntry E now exclude S kv))) =
           (if specAdded (own (mergedUsers S)) exclude kv \<or> specUpdated E now (own (mergedUsers S)) exclude kv
            then (map_of (own (mergedUsers S)))(fst kv \<mapsto> incomingRecord E now kv)
            else map_of (own (mergedUsers S)))"
proof -
  note eq = mergeEntry_plain [OF p n, of E now exclude]
  show "proto (mergedUsers (mergeEntry E now exclude S kv)) = None"
    unfolding eq using p by simp
  have excl: "\<not> (specAdded (own (mergedUsers S)) exclude kv \<and> specUpdated E now (own (mergedUsers S)) exclude kv)"
    by (auto simp: specAdded_def specUpdated_def)
  show "added (mergeEntry E now exclude S kv) =
           added S @ (if specAdded (own (mergedUsers S)) exclude kv then [fst kv] else [])"
    unfolding eq by simp
  show "updated (mergeEntry E now exclude S kv) =
           updated S @ (if specUpdated E now (own (mergedUsers S)) exclude kv then [fst kv] else [])"
    unfolding eq using excl by simp
  show "map_of (own (mergedUsers (mergeEntry E now exclude S kv))) =
           (if specAdded (own (mergedUsers S)) exclude kv \<or> specUpdated E now (own (mergedUsers S)) exclude kv
            then (map_of (own (mergedUsers S)))(fst kv \<mapsto> incomingRecord E now kv)
            else map_of (own (mergedUsers S)))"
    unfolding eq by (simp add: update_conv')
qed

lemma spec_cong:
  assumes "map_of ex1 (fst kv) = map_of ex2 (fst kv)"
  shows "specAdded ex1 exclude kv = specAdded ex2 exclude kv"
    and "specUpdated E now ex1 exclude kv = specUpdated E now ex2 exclude kv"
  using assms by (simp_all add: specAdded_def specUpdated_def)

lemma merge_fold_plain:
  assumes "proto (mergedUsers S) = None"
    and "distinct (map fst entries)"
    and "list_all (\<lambda>kv. fst kv \<notin> set objectPrototypeNames) entries"
  shows "added (foldl (mergeEntry E now exclude) S entries) =
           added S @ map fst (filter (specAdded (own (mergedUsers S)) exclude) entries) \<and>
         updated (foldl (mergeEntry E now exclude) S entries) =
           updated S @ map fst (filter (specUpdated E now (own (mergedUsers S)) exclude) entries) \<and>
         proto (mergedUsers (foldl (mergeEntry E now exclude) S entries)) = None \<and>
         map_of (own (mergedUsers (foldl (mergeEntry E now exclude) S entries))) =
           specMerged E now (own (mergedUsers S)) exclude entries"
  using assms
proof (induction entries arbitrary: S)
  case Nil
  then show ?case by (simp add: specMerged_def fun_eq_iff)
next
  case (Cons kv rest)
  let ?S1 = "mergeEntry E now exclude S kv"
  let ?ex = "own (mergedUsers S)"
  let ?ex1 = "own (mergedUsers ?S1)"
  from Cons.prems have n: "fst kv \<notin> set objectPrototypeNames"
    and rest: "distinct (map fst rest)" "list_all (\<lambda>kv. fst kv \<notin> set objectPrototypeNames) rest"
    and fresh: "fst kv \<notin> fst ` set rest"
    by auto
  note step = mergeEntry_plain_facts [OF Cons.prems(1) n, of E now exclude]
  note ih = Cons.IH [OF step(1) rest]
  have same: "map_of ?ex1 (fst kv') = map_of ?ex (fst kv')" if "kv' \<in> set rest" for kv'
  proof -
    from that fresh have "fst kv' \<noteq> fst kv" by (cases kv') (auto simp: image_iff)
    then show ?thesis unfolding step(4) by simp
  qed
  have fa: "filter (specAdded ?ex1 exclude) rest = filter (specAdded ?ex exclude) rest"
    by (rule filter_cong [OF refl]) (rule spec_cong(1) [OF same])
  have fu: "filter (specUpdated E now ?ex1 exclude) rest = filter (specUpdated E now ?ex exclude) rest"
    by (rule filter_cong [OF refl]) (rule spec_cong(2) [OF same])
  have a: "added (foldl (mergeEntry E now exclude) S (kv # rest)) =
             added S @ map fst (filter (specAdded ?ex exclude) (kv # rest))"
    using ih step(2) fa by simp
  have u: "updated (foldl (mergeEntry E now exclude) S (kv # rest)) =
             updated S @ map fst (filter (specUpdated E now ?ex exclude) (kv # rest))"
    using ih step(3) fu by simp
  have p: "proto (mergedUsers (foldl (mergeEntry E now exclude) S (kv # rest))) = None"
    using ih by simp
  have m: "map_of (own (mergedUsers (foldl (mergeEntry E now exclude) S (kv # rest)))) =
             specMerged E now ?ex exclude (kv # rest)"
  proof
    fix username
    have "map_of (own (mergedUsers (foldl (mergeEntry E now exclude) S (kv # rest)))) username =
            specMerged E now ?ex1 exclude rest username"
      using ih by simp
    also have "\<dots> = specMerged E now ?ex exclude (kv # rest) username"
    proof (cases "username = fst kv")
      case True
      with fresh have "map_of rest username = None"
        by (simp add: map_of_eq_None_iff)
      with True show ?thesis
        unfolding specMerged_def step(4) by (cases kv) simp
    next
      case False
      show ?thesis
      proof (cases "map_of rest username")
        case None
        with False show ?thesis
          unfolding specMerged_def step(4) by (cases kv) simp
      next
        case (Some v)
        then have "(username, v) \<in> set rest" by (rule map_of_SomeD)
        from same [OF this] have eq: "map_of ?ex1 username = map_of ?ex username" by simp
        have "specAdded ?ex1 exclude (username, v) = specAdded ?ex exclude (username, v)"
          and "specUpdated E now ?ex1 exclude (username, v) = specUpdated E now ?ex exclude (username, v)"
          using eq by (simp_all add: specAdded_def specUpdated_def)
        with Some False eq show ?thesis
          unfolding specMerged_def by (cases kv) simp
      qed
    qed
    finally show "map_of (own (mergedUsers (foldl (mergeEntry E now exclude) S (kv # rest)))) username =
                    specMerged E now ?ex exclude (kv # rest) username" .
  qed
  show ?case by (intro conjI) (fact a, fact u, fact p, fact m)
qed


text \<open>
  The merge does what the specification says whenever no incoming username is a property
  name of \<open>Object.prototype\<close>: the two lists are the usernames the specification selects,
  in the order of the incoming collection, and the merged collection holds the specified
  record under every name.
\<close>

lemma merge_plain_usernames:
  assumes d: "distinct (map fst entries)"
    and n: "list_all (\<lambda>kv. fst kv \<notin> set objectPrototypeNames) entries"
  shows "added (mergeLeagueUsers E now existing (Some entries) exclude) =
           map fst (filter (specAdded existing exclude) entries)"
    and "updated (mergeLeagueUsers E now existing (Some entries) exclude) =
           map fst (filter (specUpdated E now existing exclude) entries)"
    and "map_of (own (mergedUsers (mergeLeagueUsers E now existing (Some entries) exclude))) =
           specMerged E now existing exclude entries"
  using merge_fold_plain
          [where S = "\<lparr> added = [], updated = [], mergedUsers = \<lparr> own = existing, proto = None \<rparr> \<rparr>"
             and entries = entries and E = E and now = now and exclude = exclude] d n
  by (simp_all add: mergeLeagueUsers_def)

lemma merge_plain_lists:
  assumes d: "distinct (map fst entries)"
    and n: "list_all (\<lambda>kv. fst kv \<notin> set objectPrototypeNames) entries"
  shows "distinct (added (mergeLeagueUsers E now existing (Some entries) exclude))"
    and "distinct (updated (mergeLeagueUsers E now existing (Some entries) exclude))"
    and "set (added (mergeLeagueUsers E now existing (Some entries) exclude)) \<inter>
         set (updated (mergeLeagueUsers E now existing (Some entries) exclude)) = {}"
    and "kv \<in> set entries \<Longrightarrow> skipped exclude kv \<Longrightarrow>
           fst kv \<notin> set (added (mergeLeagueUsers E now existing (Some entries) exclude)) \<and>
           fst kv \<notin> set (updated (mergeLeagueUsers E now existing (Some entries) exclude))"
proof -
  note m = merge_plain_usernames [OF d n, of E now existing exclude]
  show "distinct (added (mergeLeagueUsers E now existing (Some entries) exclude))"
    unfolding m(1) using d by (rule distinct_map_filter)
  show "distinct (updated (mergeLeagueUsers E now existing (Some entries) exclude))"
    unfolding m(2) using d by (rule distinct_map_filter)
  show "set (added (mergeLeagueUsers E now existing (Some entries) exclude)) \<inter>
        set (updated (mergeLeagueUsers E now existing (Some entries) exclude)) = {}"
    unfolding m(1) m(2) by (auto simp: specAdded_def specUpdated_def)
  show "fst kv \<notin> set (added (mergeLeagueUsers E now existing (Some entries) exclude)) \<and>
        fst kv \<notin> set (updated (mergeLeagueUsers E now existing (Some entries) exclude))"
    if "kv \<in> set entries" "skipped exclude kv"
  proof -
    have "kv' = kv" if "kv' \<in> set entries" "fst kv' = fst kv" for kv'
      using eq_key_imp_eq_value [OF d, of "fst kv" "snd kv" "snd kv'"] that \<open>kv \<in> set entries\<close>
      by (cases kv; cases kv') auto
    with that show ?thesis
      unfolding m(1) m(2) by (auto simp: specAdded_def specUpdated_def)
  qed
qed

text \<open>
  Claim C6 fails for usernames that \<open>Object.prototype\<close> has a property for. With no
  existing users, the incoming user \<open>toString\<close> is found as existing (the inherited method)
  and, having a valid \<open>updatedAt\<close>, is recorded under \<open>updated\<close> and not under
  \<open>added\<close>; the incoming user \<open>constructor\<close> whose \<open>updatedAt\<close> does not parse is not
  inserted at all. The same record under the name \<open>Beta\<close> is added.
\<close>

theorem merge_inherited_username_not_added:
  "added (mergeLeagueUsers demoEnv demoNow []
            (Some [(''toString'', JObj [(''updatedAt'', JStr ''2024-03-02T00:00:00.000Z'')])]) []) = [] \<and>
   updated (mergeLeagueUsers demoEnv demoNow []
            (Some [(''toString'', JObj [(''updatedAt'', JStr ''2024-03-02T00:00:00.000Z'')])]) []) = [''toString''] \<and>
   added (mergeLeagueUsers demoEnv demoNow []
            (Some [(''constructor'', JObj [(''updatedAt'', JStr ''yesterday'')])]) []) = [] \<and>
   updated (mergeLeagueUsers demoEnv demoNow []
            (Some [(''constructor'', JObj [(''updatedAt'', JStr ''yesterday'')])]) []) = [] \<and>
   own (mergedUsers (mergeLeagueUsers demoEnv demoNow []
            (Some [(''constructor'', JObj [(''updatedAt'', JStr ''yesterday'')])]) [])) = [] \<and>
   added (mergeLeagueUsers demoEnv demoNow []
            (Some [(''Beta'', JObj [(''updatedAt'', JStr ''yesterday'')])]) []) = [''Beta'']"
  by (simp add: mergeLeagueUsers_def mergeEntry_def isObject_def namedProps_def lookupUser_def
        objectPrototypeNames_def shouldReplaceInherited_def sanitizeUserEntry_def field_def
        getValidTimestamp_def demoEnv_def demoParse_def assignUser_def Let_def)


section \<open>The tests of the repository, on the model\<close>

text \<open>
  The model gives what the tests of the repository expect: the two scores of a pair of
  resolved predictions, the recomputed total and the owners after sanitizing, the two lists
  and the keys after a merge, the eviction of the least recently used entry of a cache of
  two, and the parsed match of a response. The one test it does not agree with is the test
  on prices given as strings, treated above.
\<close>

lemma test_merge:
  "added (mergeLeagueUsers demoEnv demoNow testExisting (Some testIncoming) [''Ignored'']) = [''Beta''] \<and>
   updated (mergeLeagueUsers demoEnv demoNow testExisting (Some testIncoming) [''Ignored'']) = [''Alpha''] \<and>
   map fst (own (mergedUsers (mergeLeagueUsers demoEnv demoNow testExisting (Some testIncoming) [''Ignored''])))
     = [''Alpha'', ''Beta'']"
  by code_simp

lemma test_sanitize:
  "pointsS1 (sanitizeUserEntry demoEnv ''now'' ''PlayerOne''
     [(''predictions'',
       JArr [withProps basePrediction [(''user'', JStr ''SomeOne''), (''openPrice'', JNum (Fin 100)),
                                       (''closePrice'', JNum (Fin 120))],
             withProps basePrediction [(''id'', JNum (Fin 3)), (''prediction'', JStr ''down''),
                                       (''openPrice'', JNum (Fin 50)), (''closePrice'', JNum (Fin 40))]]),
      (''pointsS1'', JNum (Fin 99)), (''updatedAt'', JStr ''2024-01-01T00:00:00.000Z'')]) = Fin 2 \<and>
   map user (predictions (sanitizeUserEntry demoEnv ''now'' ''PlayerOne''
     [(''predictions'',
       JArr [withProps basePrediction [(''user'', JStr ''SomeOne''), (''openPrice'', JNum (Fin 100)),
                                       (''closePrice'', JNum (Fin 120))],
             withProps basePrediction [(''id'', JNum (Fin 3)), (''prediction'', JStr ''down''),
                                       (''openPrice'', JNum (Fin 50)), (''closePrice'', JNum (Fin 40))]]),
      (''pointsS1'', JNum (Fin 99)), (''updatedAt'', JStr ''2024-01-01T00:00:00.000Z'')]))
     = [''PlayerOne'', ''PlayerOne'']"
  by code_simp

lemma test_scores:
  "calculateSystem1Points [demoPrediction Up 100 110, demoPrediction Down 100 90] = Fin 2 \<and>
   mathRound (calculateSystem2Points [demoPrediction Up 100 110, demoPrediction Down 100 90]) = Fin 20"
  by code_simp

lemma test_lru:
  "(let c0 = createSymbolSearchCache \<lparr> ttlMs_opt = Some (Fin 5000), maxEntries_opt = Some (Fin 2) \<rparr>;
        (c1, h1) = set_cache c0 testHeap 0 ''AAPL'' 3;
        (c2, h2) = set_cache c1 h1 0 ''MSFT'' 5;
        (r3, c3, h3) = get c2 h2 0 ''AAPL'';
        (c4, h4) = set_cache c3 h3 0 ''GOOG'' 7;
        (r5, c5, h5) = get c4 h4 0 ''MSFT'';
        (r6, c6, h6) = get c5 h5 0 ''AAPL'';
        (r7, c7, h7) = get c6 h6 0 ''GOOG''
    in (map_option (matchesAt h3) r3, r5, map_option (matchesAt h6) r6, map_option (matchesAt h7) r7,
        map fst (cache c7)))
   = (Some [demoMatch], None, Some [demoMatch], Some [goog], [''aapl'', ''goog''])"
  by code_simp

lemma test_parse:
  "parseSymbolSearchResponse demoEnv
     (JObj [(''bestMatches'',
             JArr [JObj [(''1. symbol'', JStr ''AAPL''), (''2. name'', JStr ''Apple Inc.''),
                         (''3. type'', JStr ''Equity''), (''4. region'', JStr ''United States''),
                         (''8. currency'', JStr ''USD''), (''9. matchScore'', JStr ''0.8889'')]])])
   = \<lparr> matches = [\<lparr> symbol_m = ''AAPL'', name_m = ''Apple Inc.'', region = Some ''United States'',
                      currency = Some ''USD'', matchScore = Some (Fin (8889 / 10000)),
                      type_m = Some ''Equity'' \<rparr>],
       message = None, isRateLimited = False, isCacheable = True \<rparr>"
  by code_simp

end
